theory Spec2Isabelle
  imports Complex_Main "HOL-Library.Multiset"
begin

section \<open>Simulation parameters\<close>

text \<open>
  The embedding follows \<^verbatim>\<open>src/Main.cpp\<close>. The C++ type \<^verbatim>\<open>float\<close> is modelled by
  \<^typ>\<open>real\<close>: arithmetic is exact, and rounding, infinities and NaN are not represented.
  The only arithmetic operation that is not total in C++, the division of the
  normalisation step, is modelled as a partial operation (\<open>fdiv\<close>).
\<close>

definition PARTICLE_RADIUS :: real where
  "PARTICLE_RADIUS = 0.02"

definition NUM_PARTICLES :: nat where
  "NUM_PARTICLES = 200"

definition ATTRACTION_RANGE :: real where
  "ATTRACTION_RANGE = 0.15"

definition GROWTH_RATE :: real where
  "GROWTH_RATE = 0.005"

definition BROWNIAN_MOTION :: real where
  "BROWNIAN_MOTION = 0.001"

text \<open>The two constants local to \<^verbatim>\<open>updateParticles\<close>.\<close>

definition BOUNDARY :: real where
  "BOUNDARY = 1.0"

definition ATTRACTION_FORCE :: real where
  "ATTRACTION_FORCE = 0.0005"

section \<open>Particles\<close>

text \<open>
  \<^verbatim>\<open>struct Particle\<close>; the field \<^verbatim>\<open>p.x\<close> is written \<open>p_x p\<close>, and so on for the
  other fields.
\<close>

record Particle =
  p_x :: real
  p_y :: real
  p_z :: real
  p_radius :: real
  p_isAttached :: bool
  p_dx :: real
  p_dy :: real
  p_dz :: real

text \<open>The constructor \<^verbatim>\<open>Particle(x, y, z, attached)\<close>.\<close>

definition newParticle :: "real \<Rightarrow> real \<Rightarrow> real \<Rightarrow> bool \<Rightarrow> Particle" where
  "newParticle x y z attached =
     \<lparr>p_x = x, p_y = y, p_z = z, p_radius = PARTICLE_RADIUS,
      p_isAttached = attached, p_dx = 0, p_dy = 0, p_dz = 0\<rparr>"

section \<open>The random source\<close>

text \<open>
  The C library's generator is not part of the repository. Its state is modelled by the
  sequence of the values that the coming calls of \<^verbatim>\<open>rand()\<close> return (each a
  non-negative integer); \<open>rand\<close> returns the first and leaves the rest. The seed
  chosen by \<^verbatim>\<open>srand(time(0))\<close> is the choice of the sequence.
\<close>

type_synonym rng = "nat \<Rightarrow> nat"

definition rand :: "rng \<Rightarrow> nat \<times> rng" where
  "rand g = (g 0, \<lambda>n. g (Suc n))"

section \<open>Initialisation\<close>

text \<open>
  The loop of \<^verbatim>\<open>initializeSimulation\<close> that creates the free particles, by recursion on
  the number of iterations left.
\<close>

fun createFreeParticles :: "nat \<Rightarrow> Particle list \<Rightarrow> rng \<Rightarrow> Particle list \<times> rng" where
  "createFreeParticles 0 particles g = (particles, g)"
| "createFreeParticles (Suc n) particles g =
     (let (r1, g1) = rand g;
          x = real_of_int (int (r1 mod 200) - 100) / 100.0;
          (r2, g2) = rand g1;
          y = real_of_int (int (r2 mod 200) - 100) / 100.0;
          (r3, g3) = rand g2;
          z = real_of_int (int (r3 mod 200) - 100) / 100.0;
          (r4, g4) = rand g3;
          dx = real_of_int (int (r4 mod 100) - 50) / 50000.0;
          (r5, g5) = rand g4;
          dy = real_of_int (int (r5 mod 100) - 50) / 50000.0;
          (r6, g6) = rand g5;
          dz = real_of_int (int (r6 mod 100) - 50) / 50000.0
      in createFreeParticles n
           (particles @ [(newParticle x y z False)\<lparr>p_dx := dx, p_dy := dy, p_dz := dz\<rparr>]) g6)"

text \<open>
  \<^verbatim>\<open>initializeSimulation\<close>, on the global vector \<open>particles\<close> and with the number of
  free particles as a parameter (the source fixes it to \<open>NUM_PARTICLES\<close>).
\<close>

definition initializeSimulationN :: "nat \<Rightarrow> Particle list \<Rightarrow> rng \<Rightarrow> Particle list \<times> rng" where
  "initializeSimulationN n particles g =
     (let particles1 = particles @ [newParticle 0.0 0.0 0.0 True];
          particles2 = particles1[0 := (particles1 ! 0)\<lparr>p_radius := PARTICLE_RADIUS * 2\<rparr>]
      in createFreeParticles n particles2 g)"

definition initializeSimulation :: "Particle list \<Rightarrow> rng \<Rightarrow> Particle list \<times> rng" where
  "initializeSimulation particles g = initializeSimulationN NUM_PARTICLES particles g"

section \<open>One tick\<close>

definition distance :: "Particle \<Rightarrow> Particle \<Rightarrow> real" where
  "distance a b =
     (let dx = p_x a - p_x b;
          dy = p_y a - p_y b;
          dz = p_z a - p_z b
      in sqrt (dx * dx + dy * dy + dz * dz))"

text \<open>Lines 71 to 73: Brownian motion, three calls of \<^verbatim>\<open>rand()\<close> in this order.\<close>

definition brownianMotion :: "Particle \<Rightarrow> rng \<Rightarrow> Particle \<times> rng" where
  "brownianMotion p g =
     (let (r1, g1) = rand g;
          p1 = p\<lparr>p_dx := p_dx p + real_of_int (int (r1 mod 100) - 50) * BROWNIAN_MOTION\<rparr>;
          (r2, g2) = rand g1;
          p2 = p1\<lparr>p_dy := p_dy p1 + real_of_int (int (r2 mod 100) - 50) * BROWNIAN_MOTION\<rparr>;
          (r3, g3) = rand g2;
          p3 = p2\<lparr>p_dz := p_dz p2 + real_of_int (int (r3 mod 100) - 50) * BROWNIAN_MOTION\<rparr>
      in (p3, g3))"

text \<open>Lines 76 to 78: the position moves by the velocity.\<close>

definition updatePosition :: "Particle \<Rightarrow> Particle" where
  "updatePosition p =
     p\<lparr>p_x := p_x p + p_dx p, p_y := p_y p + p_dy p, p_z := p_z p + p_dz p\<rparr>"

text \<open>Lines 82 to 87: the six boundary checks, one after the other.\<close>

definition boundaryChecks :: "Particle \<Rightarrow> Particle" where
  "boundaryChecks p =
     (let p1 = (if p_x p < - BOUNDARY then p\<lparr>p_x := - BOUNDARY, p_dx := p_dx p * (- 0.5)\<rparr> else p);
          p2 = (if p_x p1 > BOUNDARY then p1\<lparr>p_x := BOUNDARY, p_dx := p_dx p1 * (- 0.5)\<rparr> else p1);
          p3 = (if p_y p2 < - BOUNDARY then p2\<lparr>p_y := - BOUNDARY, p_dy := p_dy p2 * (- 0.5)\<rparr> else p2);
          p4 = (if p_y p3 > BOUNDARY then p3\<lparr>p_y := BOUNDARY, p_dy := p_dy p3 * (- 0.5)\<rparr> else p3);
          p5 = (if p_z p4 < - BOUNDARY then p4\<lparr>p_z := - BOUNDARY, p_dz := p_dz p4 * (- 0.5)\<rparr> else p4);
          p6 = (if p_z p5 > BOUNDARY then p5\<lparr>p_z := BOUNDARY, p_dz := p_dz p5 * (- 0.5)\<rparr> else p5)
      in p6)"

text \<open>
  Lines 90 to 101: the search for the nearest attached particle. The pair of the local
  variables \<^verbatim>\<open>minDist\<close> and \<^verbatim>\<open>nearestAttached\<close> is \<open>None\<close> while they hold
  \<^verbatim>\<open>INFINITY\<close> and \<^verbatim>\<open>nullptr\<close> (every distance is below \<^verbatim>\<open>INFINITY\<close>), and
  \<open>Some (minDist, nearestAttached)\<close> once they are assigned, which the loop does
  together. The pointer is modelled by the particle it points to: the vector does not
  change between the search and the reads through the pointer.
\<close>

fun findNearest :: "Particle \<Rightarrow> Particle list \<Rightarrow> (real \<times> Particle) option \<Rightarrow> (real \<times> Particle) option" where
  "findNearest p [] best = best"
| "findNearest p (other # rest) best =
     (if \<not> p_isAttached other then findNearest p rest best
      else
        (let dist = distance p other
         in if (case best of None \<Rightarrow> True | Some (minDist, nearestAttached) \<Rightarrow> dist < minDist)
            then findNearest p rest (Some (dist, other))
            else findNearest p rest best))"

text \<open>
  Division of floats. A zero divisor is the one hazard of the tick, so the model makes it
  a failure (\<open>None\<close>) that every caller has to propagate.
\<close>

definition fdiv :: "real \<Rightarrow> real \<Rightarrow> real option" where
  "fdiv a b = (if b = 0 then None else Some (a / b))"

text \<open>Lines 111 to 116: the direction is normalised when its length is positive.\<close>

definition normalizeDirection :: "real \<times> real \<times> real \<Rightarrow> (real \<times> real \<times> real) option" where
  "normalizeDirection d =
     (case d of (dirX, dirY, dirZ) \<Rightarrow>
        (let length = sqrt (dirX * dirX + dirY * dirY + dirZ * dirZ)
         in if length > 0
            then (case fdiv dirX length of None \<Rightarrow> None | Some dirX' \<Rightarrow>
                  (case fdiv dirY length of None \<Rightarrow> None | Some dirY' \<Rightarrow>
                   (case fdiv dirZ length of None \<Rightarrow> None | Some dirZ' \<Rightarrow>
                      Some (dirX', dirY', dirZ'))))
            else Some (dirX, dirY, dirZ)))"

text \<open>Lines 106 to 122: the attraction force towards the nearest attached particle.\<close>

definition applyAttraction :: "Particle \<Rightarrow> Particle \<Rightarrow> Particle option" where
  "applyAttraction p nearestAttached =
     (let dirX = p_x nearestAttached - p_x p;
          dirY = p_y nearestAttached - p_y p;
          dirZ = p_z nearestAttached - p_z p
      in case normalizeDirection (dirX, dirY, dirZ) of
           None \<Rightarrow> None
         | Some (dirX', dirY', dirZ') \<Rightarrow>
             Some (p\<lparr>p_dx := p_dx p + dirX' * ATTRACTION_FORCE,
                     p_dy := p_dy p + dirY' * ATTRACTION_FORCE,
                     p_dz := p_dz p + dirZ' * ATTRACTION_FORCE\<rparr>))"

text \<open>Lines 125 to 129: the attachment test.\<close>

definition checkAttachment :: "Particle \<Rightarrow> real \<Rightarrow> Particle \<Rightarrow> Particle" where
  "checkAttachment p minDist nearestAttached =
     (if minDist < (p_radius nearestAttached + p_radius p) * 0.9
      then p\<lparr>p_isAttached := True, p_radius := p_radius p + GROWTH_RATE,
              p_dx := 0.0, p_dy := 0.0, p_dz := 0.0\<rparr>
      else p)"

text \<open>Lines 104 to 130: attraction and attachment, when an attached particle is in range.\<close>

definition attract :: "Particle \<Rightarrow> (real \<times> Particle) option \<Rightarrow> Particle option" where
  "attract p best =
     (case best of
        None \<Rightarrow> Some p
      | Some (minDist, nearestAttached) \<Rightarrow>
          if minDist < ATTRACTION_RANGE
          then (case applyAttraction p nearestAttached of
                  None \<Rightarrow> None
                | Some p' \<Rightarrow> Some (checkAttachment p' minDist nearestAttached))
          else Some p)"

text \<open>
  The body of the loop of \<^verbatim>\<open>updateParticles\<close> for a particle \<open>p\<close> that is not
  attached (lines 70 to 130). The loop changes the vector in place: \<open>front\<close> holds the
  particles already visited, as the loop left them, and \<open>rest\<close> the particles still to
  visit. The search scans the whole vector, that is the visited particles, the current
  one and the rest.
\<close>

definition updateParticle :: "Particle list \<Rightarrow> Particle \<Rightarrow> Particle list \<Rightarrow> rng \<Rightarrow> (Particle \<times> rng) option" where
  "updateParticle front p rest g =
     (let (p1, g1) = brownianMotion p g;
          p2 = updatePosition p1;
          p3 = boundaryChecks p2;
          best = findNearest p3 (front @ p3 # rest) None
      in case attract p3 best of
           None \<Rightarrow> None
         | Some p4 \<Rightarrow> Some (p4, g1))"

text \<open>The loop itself (lines 67 to 131); attached particles are skipped.\<close>

fun updateLoop :: "Particle list \<Rightarrow> Particle list \<Rightarrow> rng \<Rightarrow> (Particle list \<times> rng) option" where
  "updateLoop front [] g = Some (front, g)"
| "updateLoop front (p # rest) g =
     (if p_isAttached p then updateLoop (front @ [p]) rest g
      else
        (case updateParticle front p rest g of
           None \<Rightarrow> None
         | Some (p', g') \<Rightarrow> updateLoop (front @ [p']) rest g'))"

definition updateParticles :: "Particle list \<Rightarrow> rng \<Rightarrow> (Particle list \<times> rng) option" where
  "updateParticles particles g = updateLoop [] particles g"

text \<open>The timer callback \<^verbatim>\<open>update\<close> runs \<^verbatim>\<open>updateParticles\<close> once per tick; \<open>ticks n\<close> is \<open>n\<close> ticks.\<close>

fun ticks :: "nat \<Rightarrow> Particle list \<Rightarrow> rng \<Rightarrow> (Particle list \<times> rng) option" where
  "ticks 0 particles g = Some (particles, g)"
| "ticks (Suc n) particles g =
     (case updateParticles particles g of
        None \<Rightarrow> None
      | Some (particles', g') \<Rightarrow> ticks n particles' g')"

section \<open>Notions used in the statements\<close>

text \<open>
  The particle \<open>p\<close> after the first three phases of its turn (Brownian motion, move,
  boundary checks): the particle that the search and the attraction see.
\<close>

definition moved :: "Particle \<Rightarrow> rng \<Rightarrow> Particle" where
  "moved p g = boundaryChecks (updatePosition (fst (brownianMotion p g)))"

text \<open>Every coordinate lies in the cube of half-width \<open>BOUNDARY\<close>.\<close>

definition inBounds :: "Particle \<Rightarrow> bool" where
  "inBounds p =
     (- BOUNDARY \<le> p_x p \<and> p_x p \<le> BOUNDARY \<and>
      - BOUNDARY \<le> p_y p \<and> p_y p \<le> BOUNDARY \<and>
      - BOUNDARY \<le> p_z p \<and> p_z p \<le> BOUNDARY)"

text \<open>The velocity is exactly zero.\<close>

definition atRest :: "Particle \<Rightarrow> bool" where
  "atRest p = (p_dx p = 0 \<and> p_dy p = 0 \<and> p_dz p = 0)"

text \<open>
  The states of the program: \<^verbatim>\<open>main\<close> calls \<^verbatim>\<open>initializeSimulation\<close> once, on the empty
  vector, and the timer then calls \<^verbatim>\<open>updateParticles\<close> again and again. The random
  source is arbitrary at every step.
\<close>

inductive reachable :: "Particle list \<Rightarrow> bool" where
  initial: "initializeSimulationN n [] g = (ps, g') \<Longrightarrow> reachable ps"
| tick: "reachable ps \<Longrightarrow> updateParticles ps g = Some (ps', g') \<Longrightarrow> reachable ps'"

text \<open>The seed as \<^verbatim>\<open>initializeSimulation\<close> leaves it, and what holds of a new free particle.\<close>

definition seedParticle :: Particle where
  "seedParticle = (newParticle 0 0 0 True)\<lparr>p_radius := PARTICLE_RADIUS * 2\<rparr>"

definition freshFree :: "Particle \<Rightarrow> bool" where
  "freshFree q = (\<not> p_isAttached q \<and> p_radius q = PARTICLE_RADIUS \<and> inBounds q)"

text \<open>
  Random sources for the examples: \<open>constRng c\<close> returns \<open>c\<close> at every call, and
  \<open>consRng r g\<close> returns \<open>r\<close> at the first call and continues as \<open>g\<close>.
\<close>

definition constRng :: "nat \<Rightarrow> rng" where
  "constRng c = (\<lambda>n. c)"

definition consRng :: "nat \<Rightarrow> rng \<Rightarrow> rng" where
  "consRng r g = (\<lambda>n. case n of 0 \<Rightarrow> r | Suc k \<Rightarrow> g k)"

text \<open>
  Particles for the examples, all on the first axis: a free particle as the constructor
  makes it, and the same particle once it has attached.
\<close>

definition particleAt :: "real \<Rightarrow> Particle" where
  "particleAt x = newParticle x 0 0 False"

definition attachedAt :: "real \<Rightarrow> Particle" where
  "attachedAt x = (particleAt x)\<lparr>p_isAttached := True, p_radius := PARTICLE_RADIUS + GROWTH_RATE\<rparr>"

text \<open>
  The invariant of the search: \<open>r\<close> is the state of \<^verbatim>\<open>minDist\<close> and
  \<^verbatim>\<open>nearestAttached\<close> after the attached particles \<open>S\<close> have been compared.
\<close>

definition isNearest :: "Particle \<Rightarrow> Particle set \<Rightarrow> (real \<times> Particle) option \<Rightarrow> bool" where
  "isNearest p S r =
     (case r of
        None \<Rightarrow> S = {}
      | Some (d, q) \<Rightarrow> q \<in> S \<and> d = distance p q \<and> (\<forall>a\<in>S. d \<le> distance p a))"

text \<open>
  The particles of the approach to the seed: the free particle at distance \<open>s\<close> from
  the origin in the direction \<open>(ux, uy, uz)\<close>, moving towards the origin at speed
  \<open>w\<close>, and the particle attached at distance \<open>s\<close>.
\<close>

definition rayParticle :: "real \<Rightarrow> real \<Rightarrow> real \<Rightarrow> real \<Rightarrow> real \<Rightarrow> Particle" where
  "rayParticle ux uy uz s w =
     (newParticle (s * ux) (s * uy) (s * uz) False)
       \<lparr>p_dx := - (w * ux), p_dy := - (w * uy), p_dz := - (w * uz)\<rparr>"

definition rayAttached :: "real \<Rightarrow> real \<Rightarrow> real \<Rightarrow> real \<Rightarrow> Particle" where
  "rayAttached ux uy uz s =
     (newParticle (s * ux) (s * uy) (s * uz) True)\<lparr>p_radius := PARTICLE_RADIUS + GROWTH_RATE\<rparr>"

text \<open>
  For the claim on the order of the vector, every particle comes with the three values
  that \<^verbatim>\<open>rand()\<close> returns in its turn. \<open>drawsFor\<close> is the random source that hands
  them out in the order of the vector: attached particles are skipped and call
  \<^verbatim>\<open>rand()\<close> at no time.
\<close>

type_synonym draws = "nat \<times> nat \<times> nat"







text \<open>
  The number of calls of \<^verbatim>\<open>rand()\<close> in a tick of the vector \<open>ps\<close> before the turn
  of its particle \<open>i\<close>: three for every free particle in front of it. The first call of
  the turn itself gives the Brownian increment of \<open>dx\<close>.
\<close>

definition drawsBefore :: "Particle list \<Rightarrow> nat \<Rightarrow> nat" where
  "drawsBefore ps i = 3 * length (filter (\<lambda>p. \<not> p_isAttached p) (take i ps))"

section \<open>The tick never fails\<close>

text \<open>
  The guard \<^verbatim>\<open>length > 0\<close> keeps the divisor of the normalisation away from zero, so
  no step of the tick takes the failure branch of \<open>fdiv\<close>.
\<close>

lemma normalizeDirection_Some: "\<exists>d'. normalizeDirection d = Some d'"
  by (cases d) (auto simp: normalizeDirection_def fdiv_def Let_def)

lemma applyAttraction_Some: "\<exists>p'. applyAttraction p q = Some p'"
proof -
  obtain a b c where "normalizeDirection (p_x q - p_x p, p_y q - p_y p, p_z q - p_z p) = Some (a, b, c)"
    using normalizeDirection_Some by (metis prod_cases3)
  then show ?thesis by (simp add: applyAttraction_def)
qed

lemma attract_Some: "\<exists>p'. attract p best = Some p'"
proof (cases best)
  case None
  then show ?thesis by (simp add: attract_def)
next
  case (Some a)
  obtain d q where a: "a = (d, q)" by (cases a)
  obtain p' where "applyAttraction p q = Some p'" using applyAttraction_Some by blast
  with Some a show ?thesis by (simp add: attract_def)
qed

lemma updateParticle_Some: "\<exists>p' g'. updateParticle front p rest g = Some (p', g')"
proof -
  obtain p1 g1 where b: "brownianMotion p g = (p1, g1)" by (cases "brownianMotion p g")
  obtain p4 where "attract (boundaryChecks (updatePosition p1))
      (findNearest (boundaryChecks (updatePosition p1)) (front @ boundaryChecks (updatePosition p1) # rest) None) = Some p4"
    using attract_Some by blast
  with b show ?thesis by (simp add: updateParticle_def)
qed

lemma updateLoop_Some: "\<exists>ps' g'. updateLoop front todo g = Some (ps', g')"
proof (induction todo arbitrary: front g)
  case Nil
  show ?case by simp
next
  case (Cons p rest)
  show ?case
  proof (cases "p_isAttached p")
    case True
    with Cons show ?thesis by simp
  next
    case False
    obtain p' g' where "updateParticle front p rest g = Some (p', g')"
      using updateParticle_Some by blast
    with False Cons show ?thesis by simp
  qed
qed

section \<open>What each phase of the tick changes\<close>

lemma brownianMotion_fields:
  "p_x (fst (brownianMotion p g)) = p_x p"
  "p_y (fst (brownianMotion p g)) = p_y p"
  "p_z (fst (brownianMotion p g)) = p_z p"
  "p_radius (fst (brownianMotion p g)) = p_radius p"
  "p_isAttached (fst (brownianMotion p g)) = p_isAttached p"
  by (simp_all add: brownianMotion_def rand_def)

lemma brownianMotion_rng: "snd (brownianMotion p g) = (\<lambda>n. g (Suc (Suc (Suc n))))"
  by (simp add: brownianMotion_def rand_def)

lemma updatePosition_fields:
  "p_radius (updatePosition p) = p_radius p"
  "p_isAttached (updatePosition p) = p_isAttached p"
  "p_dx (updatePosition p) = p_dx p"
  "p_dy (updatePosition p) = p_dy p"
  "p_dz (updatePosition p) = p_dz p"
  by (simp_all add: updatePosition_def)

lemma boundaryChecks_fields:
  "p_radius (boundaryChecks p) = p_radius p"
  "p_isAttached (boundaryChecks p) = p_isAttached p"
  by (simp_all add: boundaryChecks_def Let_def)

lemma boundaryChecks_bounds:
  "- BOUNDARY \<le> p_x (boundaryChecks p)" "p_x (boundaryChecks p) \<le> BOUNDARY"
  "- BOUNDARY \<le> p_y (boundaryChecks p)" "p_y (boundaryChecks p) \<le> BOUNDARY"
  "- BOUNDARY \<le> p_z (boundaryChecks p)" "p_z (boundaryChecks p) \<le> BOUNDARY"
  by (simp_all add: boundaryChecks_def Let_def BOUNDARY_def)

lemma applyAttraction_fields:
  assumes "applyAttraction p q = Some p'"
  shows "p_x p' = p_x p" "p_y p' = p_y p" "p_z p' = p_z p"
    "p_radius p' = p_radius p" "p_isAttached p' = p_isAttached p"
  using assms by (auto simp: applyAttraction_def Let_def split: option.splits prod.splits)

lemma checkAttachment_fields:
  "p_x (checkAttachment p d q) = p_x p" "p_y (checkAttachment p d q) = p_y p"
  "p_z (checkAttachment p d q) = p_z p"
  by (simp_all add: checkAttachment_def)

lemma attract_position:
  assumes "attract p best = Some p'"
  shows "p_x p' = p_x p" "p_y p' = p_y p" "p_z p' = p_z p"
  using assms
  by (auto simp: attract_def checkAttachment_fields applyAttraction_fields
      split: option.splits prod.splits if_splits)

lemma attract_radius:
  assumes "attract p best = Some p'" "\<not> p_isAttached p"
  shows "p_radius p' = p_radius p + (if p_isAttached p' then GROWTH_RATE else 0)"
  using assms
  by (auto simp: attract_def checkAttachment_def applyAttraction_fields
      split: option.splits prod.splits if_splits)

lemma attract_stopped:
  assumes "attract p best = Some p'" "\<not> p_isAttached p" "p_isAttached p'"
  shows "p_dx p' = 0" "p_dy p' = 0" "p_dz p' = 0"
  using assms
  by (auto simp: attract_def checkAttachment_def applyAttraction_fields
      split: option.splits prod.splits if_splits)

lemma updateParticle_eq:
  "updateParticle front p rest g =
     (case attract (moved p g) (findNearest (moved p g) (front @ moved p g # rest) None) of
        None \<Rightarrow> None
      | Some p4 \<Rightarrow> Some (p4, snd (brownianMotion p g)))"
  by (cases "brownianMotion p g") (auto simp: updateParticle_def moved_def Let_def split: option.splits)

lemma moved_fields:
  "p_radius (moved p g) = p_radius p" "p_isAttached (moved p g) = p_isAttached p"
  by (simp_all add: moved_def boundaryChecks_fields updatePosition_fields brownianMotion_fields)

lemma moved_bounds:
  "- BOUNDARY \<le> p_x (moved p g)" "p_x (moved p g) \<le> BOUNDARY"
  "- BOUNDARY \<le> p_y (moved p g)" "p_y (moved p g) \<le> BOUNDARY"
  "- BOUNDARY \<le> p_z (moved p g)" "p_z (moved p g) \<le> BOUNDARY"
  by (simp_all add: moved_def boundaryChecks_bounds)

lemma updateParticle_position:
  assumes "updateParticle front p rest g = Some (p', g')"
  shows "p_x p' = p_x (moved p g)" "p_y p' = p_y (moved p g)" "p_z p' = p_z (moved p g)"
  using assms by (auto simp: updateParticle_eq attract_position split: option.splits)

lemma updateParticle_rng:
  assumes "updateParticle front p rest g = Some (p', g')"
  shows "g' = (\<lambda>n. g (Suc (Suc (Suc n))))"
  using assms by (auto simp: updateParticle_eq brownianMotion_rng split: option.splits)

lemma updateParticle_radius:
  assumes "updateParticle front p rest g = Some (p', g')" "\<not> p_isAttached p"
  shows "p_radius p' = p_radius p + (if p_isAttached p' then GROWTH_RATE else 0)"
proof -
  from assms(1) have "attract (moved p g) (findNearest (moved p g) (front @ moved p g # rest) None) = Some p'"
    by (auto simp: updateParticle_eq split: option.splits)
  from attract_radius [OF this] assms(2) show ?thesis by (simp add: moved_fields)
qed

lemma updateParticle_stopped:
  assumes "updateParticle front p rest g = Some (p', g')" "\<not> p_isAttached p" "p_isAttached p'"
  shows "p_dx p' = 0" "p_dy p' = 0" "p_dz p' = 0"
proof -
  from assms(1) have "attract (moved p g) (findNearest (moved p g) (front @ moved p g # rest) None) = Some p'"
    by (auto simp: updateParticle_eq split: option.splits)
  from attract_stopped [OF this] assms(2,3) show "p_dx p' = 0" "p_dy p' = 0" "p_dz p' = 0"
    by (simp_all add: moved_fields)
qed

text \<open>A relation between a particle before and after its turn holds along the whole vector.\<close>

lemma updateLoop_rel:
  assumes body: "\<And>front p rest g p' g'.
      \<not> p_isAttached p \<Longrightarrow> updateParticle front p rest g = Some (p', g') \<Longrightarrow> R p p'"
    and skip: "\<And>p. p_isAttached p \<Longrightarrow> R p p"
    and run: "updateLoop front todo g = Some (ps', g')"
  shows "\<exists>qs. ps' = front @ qs \<and> list_all2 R todo qs"
  using run
proof (induction todo arbitrary: front g)
  case Nil
  then show ?case by simp
next
  case (Cons p rest)
  show ?case
  proof (cases "p_isAttached p")
    case True
    with Cons.prems have "updateLoop (front @ [p]) rest g = Some (ps', g')" by simp
    from Cons.IH [OF this] obtain qs where "ps' = (front @ [p]) @ qs" "list_all2 R rest qs"
      by blast
    with True skip show ?thesis by simp
  next
    case False
    obtain p1 g1 where u: "updateParticle front p rest g = Some (p1, g1)"
      using updateParticle_Some by blast
    with False Cons.prems have "updateLoop (front @ [p1]) rest g1 = Some (ps', g')" by simp
    from Cons.IH [OF this] obtain qs where "ps' = (front @ [p1]) @ qs" "list_all2 R rest qs"
      by blast
    with body [OF False u] show ?thesis by simp
  qed
qed

lemma updateParticles_rel:
  assumes "\<And>front p rest g p' g'.
      \<not> p_isAttached p \<Longrightarrow> updateParticle front p rest g = Some (p', g') \<Longrightarrow> R p p'"
    and "\<And>p. p_isAttached p \<Longrightarrow> R p p"
    and "updateParticles ps g = Some (ps', g')"
  shows "list_all2 R ps ps'"
  using updateLoop_rel [of R "[]" ps g ps' g'] assms by (auto simp: updateParticles_def)

lemma updateParticles_Some: "\<exists>ps' g'. updateParticles ps g = Some (ps', g')"
  by (simp add: updateParticles_def updateLoop_Some)

lemma ticks_Some: "\<exists>ps' g'. ticks n ps g = Some (ps', g')"
proof (induction n arbitrary: ps g)
  case 0
  show ?case by simp
next
  case (Suc n)
  obtain ps1 g1 where "updateParticles ps g = Some (ps1, g1)"
    using updateParticles_Some by blast
  with Suc show ?case by simp
qed

lemma ticks_rel:
  assumes step: "\<And>ps g ps' g'. updateParticles ps g = Some (ps', g') \<Longrightarrow> list_all2 R ps ps'"
    and refl: "\<And>p. R p p"
    and trans: "\<And>p q r. R p q \<Longrightarrow> R q r \<Longrightarrow> R p r"
    and run: "ticks n ps g = Some (ps', g')"
  shows "list_all2 R ps ps'"
  using run
proof (induction n arbitrary: ps g)
  case 0
  then show ?case by (simp add: list_all2_refl refl)
next
  case (Suc n)
  obtain ps1 g1 where u: "updateParticles ps g = Some (ps1, g1)"
    using updateParticles_Some by blast
  with Suc.prems have "ticks n ps1 g1 = Some (ps', g')" by simp
  from Suc.IH [OF this] step [OF u] show ?case
    using trans by (blast intro: list_all2_trans)
qed

section \<open>The initial state\<close>

lemma cube_coordinate:
  "- 1 \<le> real_of_int (int (r mod 200) - 100) / 100 \<and> real_of_int (int (r mod 200) - 100) / 100 \<le> 1"
proof -
  have "r mod 200 < 200" by simp
  then have "int (r mod 200) < 200" by linarith
  moreover have "0 \<le> int (r mod 200)" by simp
  ultimately show ?thesis by simp
qed

lemma createFreeParticles_append:
  "\<exists>qs g'. createFreeParticles n ps g = (ps @ qs, g') \<and> length qs = n \<and> list_all freshFree qs"
proof (induction n arbitrary: ps g)
  case 0
  show ?case by simp
next
  case (Suc n)
  define q where "q = (newParticle (real_of_int (int (g 0 mod 200) - 100) / 100)
      (real_of_int (int (g (Suc 0) mod 200) - 100) / 100)
      (real_of_int (int (g (Suc (Suc 0)) mod 200) - 100) / 100) False)
      \<lparr>p_dx := real_of_int (int (g (Suc (Suc (Suc 0))) mod 100) - 50) / 50000,
        p_dy := real_of_int (int (g (Suc (Suc (Suc (Suc 0)))) mod 100) - 50) / 50000,
        p_dz := real_of_int (int (g (Suc (Suc (Suc (Suc (Suc 0))))) mod 100) - 50) / 50000\<rparr>"
  define g6 where "g6 = (\<lambda>k. g (Suc (Suc (Suc (Suc (Suc (Suc k)))))))"
  have step: "createFreeParticles (Suc n) ps g = createFreeParticles n (ps @ [q]) g6"
    by (simp add: rand_def q_def g6_def)
  have q: "freshFree q"
    using cube_coordinate [of "g 0"] cube_coordinate [of "g (Suc 0)"] cube_coordinate [of "g (Suc (Suc 0))"]
    by (simp add: freshFree_def inBounds_def q_def newParticle_def BOUNDARY_def)
  from Suc [of "ps @ [q]" g6] obtain qs g' where
    "createFreeParticles n (ps @ [q]) g6 = ((ps @ [q]) @ qs, g')"
    "length qs = n" "list_all freshFree qs" by blast
  with step q have "createFreeParticles (Suc n) ps g = (ps @ (q # qs), g') \<and>
      length (q # qs) = Suc n \<and> list_all freshFree (q # qs)" by simp
  then show ?case by blast
qed

lemma initializeSimulationN_shape:
  "\<exists>qs g'. initializeSimulationN n [] g = (seedParticle # qs, g') \<and> length qs = n \<and>
     list_all freshFree qs"
  using createFreeParticles_append [of n "[seedParticle]" g]
  by (simp add: initializeSimulationN_def seedParticle_def)

section \<open>Invariants of the tick\<close>

lemma updateParticles_length:
  assumes "updateParticles ps g = Some (ps', g')"
  shows "length ps' = length ps"
proof -
  have "list_all2 (\<lambda>p p'. True) ps ps'"
    by (rule updateParticles_rel [OF _ _ assms]) simp_all
  then show ?thesis by (simp add: list_all2_lengthD)
qed

lemma ticks_length:
  assumes "ticks n ps g = Some (ps', g')"
  shows "length ps' = length ps"
  using assms
proof (induction n arbitrary: ps g)
  case 0
  then show ?case by simp
next
  case (Suc n)
  obtain ps1 g1 where u: "updateParticles ps g = Some (ps1, g1)"
    using updateParticles_Some by blast
  with Suc.prems have "ticks n ps1 g1 = Some (ps', g')" by simp
  from Suc.IH [OF this] updateParticles_length [OF u] show ?case by simp
qed

text \<open>Attached particles are skipped: a tick leaves them as they are.\<close>

lemma updateParticles_attached:
  assumes "updateParticles ps g = Some (ps', g')"
  shows "list_all2 (\<lambda>p p'. p_isAttached p \<longrightarrow> p' = p) ps ps'"
  by (rule updateParticles_rel [OF _ _ assms]) simp_all

lemma ticks_attached:
  assumes "ticks n ps g = Some (ps', g')"
  shows "list_all2 (\<lambda>p p'. p_isAttached p \<longrightarrow> p' = p) ps ps'"
  by (rule ticks_rel [OF updateParticles_attached _ _ assms]) auto

text \<open>In the states of the program every attached particle is at rest.\<close>

lemma updateParticles_atRest:
  assumes "updateParticles ps g = Some (ps', g')"
    and "list_all (\<lambda>p. p_isAttached p \<longrightarrow> atRest p) ps"
  shows "list_all (\<lambda>p. p_isAttached p \<longrightarrow> atRest p) ps'"
proof -
  have "list_all2 (\<lambda>p p'. (p_isAttached p \<longrightarrow> atRest p) \<longrightarrow> (p_isAttached p' \<longrightarrow> atRest p')) ps ps'"
  proof (rule updateParticles_rel [OF _ _ assms(1)])
    fix front p rest g p' g'
    assume "\<not> p_isAttached p" "updateParticle front p rest g = Some (p', g')"
    then show "(p_isAttached p \<longrightarrow> atRest p) \<longrightarrow> (p_isAttached p' \<longrightarrow> atRest p')"
      using updateParticle_stopped [of front p rest g p' g'] by (simp add: atRest_def)
  qed simp
  with assms(2) show ?thesis
    by (auto simp: list_all2_conv_all_nth list_all_length)
qed

lemma initial_atRest:
  assumes "initializeSimulationN n [] g = (ps, g')"
  shows "list_all (\<lambda>p. p_isAttached p \<longrightarrow> atRest p) ps"
proof -
  obtain qs g1 where "initializeSimulationN n [] g = (seedParticle # qs, g1)" "list_all freshFree qs"
    using initializeSimulationN_shape by blast
  with assms have "ps = seedParticle # qs" by simp
  moreover have "atRest seedParticle" by (simp add: atRest_def seedParticle_def newParticle_def)
  moreover have "list_all (\<lambda>p. p_isAttached p \<longrightarrow> atRest p) qs"
    using \<open>list_all freshFree qs\<close> by (auto simp: list_all_iff freshFree_def)
  ultimately show ?thesis by simp
qed

lemma reachable_atRest: "reachable ps \<Longrightarrow> list_all (\<lambda>p. p_isAttached p \<longrightarrow> atRest p) ps"
  by (induction rule: reachable.induct) (auto intro: initial_atRest updateParticles_atRest)

text \<open>
  Claim C1. A particle whose attached flag is true keeps the flag, its position and its
  velocity through any number of ticks, from any state and with any random source; in
  the states of the program the velocity of an attached particle is exactly zero, so it
  stays exactly zero.
\<close>

theorem attachment_irreversible:
  assumes "i < length ps" and "p_isAttached (ps ! i)"
  shows "\<exists>ps' g'. ticks n ps g = Some (ps', g') \<and>
           p_isAttached (ps' ! i) \<and>
           p_x (ps' ! i) = p_x (ps ! i) \<and> p_y (ps' ! i) = p_y (ps ! i) \<and> p_z (ps' ! i) = p_z (ps ! i) \<and>
           p_dx (ps' ! i) = p_dx (ps ! i) \<and> p_dy (ps' ! i) = p_dy (ps ! i) \<and> p_dz (ps' ! i) = p_dz (ps ! i) \<and>
           (reachable ps \<longrightarrow> p_dx (ps' ! i) = 0 \<and> p_dy (ps' ! i) = 0 \<and> p_dz (ps' ! i) = 0)"
proof -
  obtain ps' g' where t: "ticks n ps g = Some (ps', g')"
    using ticks_Some by blast
  from ticks_attached [OF t] assms have same: "ps' ! i = ps ! i"
    by (simp add: list_all2_conv_all_nth)
  have "atRest (ps ! i)" if "reachable ps"
    using reachable_atRest [OF that] assms by (simp add: list_all_length)
  with t same assms(2) show ?thesis by (auto simp: atRest_def)
qed

lemma updateParticles_radius:
  assumes "updateParticles ps g = Some (ps', g')"
  shows "list_all2 (\<lambda>p p'. p_radius p' = p_radius p +
           (if \<not> p_isAttached p \<and> p_isAttached p' then GROWTH_RATE else 0)) ps ps'"
proof (rule updateParticles_rel [OF _ _ assms])
  fix front p rest g p' g'
  assume "\<not> p_isAttached p" "updateParticle front p rest g = Some (p', g')"
  then show "p_radius p' = p_radius p + (if \<not> p_isAttached p \<and> p_isAttached p' then GROWTH_RATE else 0)"
    using updateParticle_radius [of front p rest g p' g'] by simp
qed simp

text \<open>
  Claim C2. In one tick the radius of a particle never decreases; it increases exactly
  when the particle's attached flag changes from false to true in this tick, and then by
  exactly \<open>GROWTH_RATE\<close>.
\<close>

theorem radius_monotone:
  assumes "i < length ps"
  shows "\<exists>ps' g'. updateParticles ps g = Some (ps', g') \<and>
           p_radius (ps ! i) \<le> p_radius (ps' ! i) \<and>
           (p_radius (ps ! i) < p_radius (ps' ! i) \<longleftrightarrow>
              \<not> p_isAttached (ps ! i) \<and> p_isAttached (ps' ! i)) \<and>
           (\<not> p_isAttached (ps ! i) \<and> p_isAttached (ps' ! i) \<longrightarrow>
              p_radius (ps' ! i) = p_radius (ps ! i) + GROWTH_RATE)"
proof -
  obtain ps' g' where u: "updateParticles ps g = Some (ps', g')"
    using updateParticles_Some by blast
  from updateParticles_radius [OF u] assms
  have "p_radius (ps' ! i) = p_radius (ps ! i) +
      (if \<not> p_isAttached (ps ! i) \<and> p_isAttached (ps' ! i) then GROWTH_RATE else 0)"
    by (simp add: list_all2_conv_all_nth)
  moreover have "0 < GROWTH_RATE" by (simp add: GROWTH_RATE_def)
  ultimately show ?thesis using u by auto
qed

lemma updateParticles_inBounds:
  assumes "updateParticles ps g = Some (ps', g')" and "list_all inBounds ps"
  shows "list_all inBounds ps'"
proof -
  have "list_all2 (\<lambda>p p'. inBounds p \<longrightarrow> inBounds p') ps ps'"
  proof (rule updateParticles_rel [OF _ _ assms(1)])
    fix front p rest g p' g'
    assume "\<not> p_isAttached p" "updateParticle front p rest g = Some (p', g')"
    then show "inBounds p \<longrightarrow> inBounds p'"
      using updateParticle_position [of front p rest g p' g'] moved_bounds [of p g]
      by (simp add: inBounds_def)
  qed simp
  with assms(2) show ?thesis
    by (auto simp: list_all2_conv_all_nth list_all_length)
qed

lemma initial_inBounds:
  assumes "initializeSimulationN n [] g = (ps, g')"
  shows "list_all inBounds ps"
proof -
  obtain qs g1 where "initializeSimulationN n [] g = (seedParticle # qs, g1)" "list_all freshFree qs"
    using initializeSimulationN_shape by blast
  with assms have "ps = seedParticle # qs" by simp
  moreover have "inBounds seedParticle"
    by (simp add: inBounds_def seedParticle_def newParticle_def BOUNDARY_def)
  moreover have "list_all inBounds qs"
    using \<open>list_all freshFree qs\<close> by (auto simp: list_all_iff freshFree_def)
  ultimately show ?thesis by simp
qed

lemma reachable_inBounds: "reachable ps \<Longrightarrow> list_all inBounds ps"
  by (induction rule: reachable.induct) (auto intro: initial_inBounds updateParticles_inBounds)

text \<open>
  Claim C3. When every coordinate of every particle lies in \<open>[-BOUNDARY, BOUNDARY]\<close>,
  the same holds after one tick; and it holds in every state of the program (after any
  number of ticks from the initial state).
\<close>

theorem boundary_containment:
  "(list_all inBounds ps \<longrightarrow>
      (\<exists>ps' g'. updateParticles ps g = Some (ps', g') \<and> list_all inBounds ps')) \<and>
   (reachable ps \<longrightarrow> list_all inBounds ps)"
  using updateParticles_Some [of ps g] updateParticles_inBounds [of ps g] reachable_inBounds [of ps]
  by blast

text \<open>
  Claim C8. After the initialisation with \<open>n\<close> free particles exactly one particle is
  attached, its radius is twice \<open>PARTICLE_RADIUS\<close>, and the vector holds \<open>1 + n\<close>
  particles, initially and after any number of ticks.
\<close>

theorem seed_invariant:
  "\<exists>ps g1 seed. initializeSimulationN n [] g = (ps, g1) \<and>
      filter p_isAttached ps = [seed] \<and> p_radius seed = 2 * PARTICLE_RADIUS \<and>
      length ps = 1 + n \<and>
      (\<exists>ps' g'. ticks k ps g2 = Some (ps', g') \<and> length ps' = 1 + n)"
proof -
  obtain qs g1 where i: "initializeSimulationN n [] g = (seedParticle # qs, g1)"
    and q: "length qs = n" "list_all freshFree qs"
    using initializeSimulationN_shape by blast
  have "filter p_isAttached qs = []"
    using q(2) by (auto simp: list_all_iff freshFree_def filter_empty_conv)
  then have f: "filter p_isAttached (seedParticle # qs) = [seedParticle]"
    by (simp add: seedParticle_def newParticle_def)
  obtain ps' g' where t: "ticks k (seedParticle # qs) g2 = Some (ps', g')"
    using ticks_Some by blast
  from ticks_length [OF t] q(1) have "length ps' = 1 + n" by simp
  with i f q(1) t show ?thesis
    by (simp add: seedParticle_def)
qed

section \<open>The search and the attraction\<close>

lemma isNearest_closer:
  assumes "isNearest p S best"
    and "case best of None \<Rightarrow> True | Some (minDist, nearestAttached) \<Rightarrow> distance p other < minDist"
  shows "isNearest p (insert other S) (Some (distance p other, other))"
  using assms by (auto simp: isNearest_def split: option.splits)

lemma isNearest_farther:
  assumes "isNearest p S best"
    and "\<not> (case best of None \<Rightarrow> True | Some (minDist, nearestAttached) \<Rightarrow> distance p other < minDist)"
  shows "isNearest p (insert other S) best"
  using assms by (auto simp: isNearest_def split: option.splits)

lemma findNearest_invariant:
  assumes "isNearest p S best"
  shows "isNearest p (S \<union> {a \<in> set ps. p_isAttached a}) (findNearest p ps best)"
  using assms
proof (induction ps arbitrary: best S)
  case Nil
  then show ?case by simp
next
  case (Cons other rest)
  show ?case
  proof (cases "p_isAttached other")
    case False
    then have "{a \<in> set (other # rest). p_isAttached a} = {a \<in> set rest. p_isAttached a}"
      by auto
    with Cons.IH [OF Cons.prems] False show ?thesis by simp
  next
    case True
    then have set: "S \<union> {a \<in> set (other # rest). p_isAttached a} =
        insert other S \<union> {a \<in> set rest. p_isAttached a}"
      by auto
    show ?thesis
    proof (cases "case best of None \<Rightarrow> True | Some (minDist, nearestAttached) \<Rightarrow> distance p other < minDist")
      case closer: True
      from Cons.IH [OF isNearest_closer [OF Cons.prems closer]] True closer show ?thesis
        unfolding set by simp
    next
      case farther: False
      from Cons.IH [OF isNearest_farther [OF Cons.prems farther]] True farther show ?thesis
        unfolding set by simp
    qed
  qed
qed

text \<open>The result of the search on any vector.\<close>

lemma findNearest_minimum:
  "case findNearest p ps None of
     None \<Rightarrow> \<forall>a\<in>set ps. \<not> p_isAttached a
   | Some (d, q) \<Rightarrow>
       q \<in> set ps \<and> p_isAttached q \<and> d = distance p q \<and>
       (\<forall>a\<in>set ps. p_isAttached a \<longrightarrow> d \<le> distance p a)"
  using findNearest_invariant [where best = None and S = "{}" and p = p and ps = ps]
  by (auto simp: isNearest_def split: option.splits)

lemma distance_zero:
  assumes "distance p q = 0"
  shows "p_x q - p_x p = 0" "p_y q - p_y p = 0" "p_z q - p_z p = 0"
proof -
  let ?a = "p_x p - p_x q" and ?b = "p_y p - p_y q" and ?c = "p_z p - p_z q"
  from assms have "?a * ?a + ?b * ?b + ?c * ?c = 0"
    by (simp add: distance_def Let_def)
  moreover have "0 \<le> ?a * ?a" "0 \<le> ?b * ?b" "0 \<le> ?c * ?c" by simp_all
  ultimately have "?a * ?a = 0" "?b * ?b = 0" "?c * ?c = 0" by linarith+
  then show "p_x q - p_x p = 0" "p_y q - p_y p = 0" "p_z q - p_z p = 0" by simp_all
qed

text \<open>
  Claim C7. A tick, and any number of ticks, returns a state from every state: the
  division is never reached with a zero divisor. When the distance between the particle
  and its nearest attached particle is exactly zero, the direction is left as it is and
  the attraction leaves the particle, hence its velocity, unchanged.
\<close>

theorem no_division_by_zero:
  "(\<exists>ps' g'. updateParticles ps g = Some (ps', g')) \<and>
   (\<exists>ps' g'. ticks n ps g = Some (ps', g')) \<and>
   (distance p q = 0 \<longrightarrow>
      normalizeDirection (p_x q - p_x p, p_y q - p_y p, p_z q - p_z p) =
        Some (p_x q - p_x p, p_y q - p_y p, p_z q - p_z p) \<and>
      applyAttraction p q = Some p)"
proof -
  have "normalizeDirection (p_x q - p_x p, p_y q - p_y p, p_z q - p_z p) =
        Some (p_x q - p_x p, p_y q - p_y p, p_z q - p_z p) \<and> applyAttraction p q = Some p"
    if "distance p q = 0"
    using distance_zero [OF that]
    by (simp add: applyAttraction_def normalizeDirection_def)
  then show ?thesis
    using updateParticles_Some [of ps g] ticks_Some [of n ps g] by blast
qed

section \<open>The turn of one particle\<close>

text \<open>The turn of a particle: the loop runs its body on the updated prefix and the old rest.\<close>

lemma updateLoop_prefix:
  assumes "updateLoop front todo g = Some (ps', g')"
  shows "take (length front) ps' = front" "length ps' = length front + length todo"
proof -
  have "\<exists>qs. ps' = front @ qs \<and> list_all2 (\<lambda>p p'. True) todo qs"
    by (rule updateLoop_rel [OF _ _ assms]) simp_all
  then obtain qs where "ps' = front @ qs" "length todo = length qs"
    by (auto dest: list_all2_lengthD)
  then show "take (length front) ps' = front" "length ps' = length front + length todo"
    by simp_all
qed

lemma drawsBefore_simps:
  "drawsBefore ps 0 = 0"
  "drawsBefore (p # rest) (Suc j) = (if p_isAttached p then 0 else 3) + drawsBefore rest j"
  by (simp_all add: drawsBefore_def)

lemma updateLoop_turn:
  assumes "updateLoop front todo g = Some (ps', g')"
    and "i < length todo" and "\<not> p_isAttached (todo ! i)"
  shows "\<exists>g1. updateParticle (take (length front + i) ps') (todo ! i) (drop (Suc i) todo)
            (\<lambda>n. g (n + drawsBefore todo i)) = Some (ps' ! (length front + i), g1)"
  using assms
proof (induction todo arbitrary: front g i)
  case Nil
  then show ?case by simp
next
  case (Cons p rest)
  show ?case
  proof (cases i)
    case 0
    with Cons.prems have free: "\<not> p_isAttached p" by simp
    obtain p1 g1 where u: "updateParticle front p rest g = Some (p1, g1)"
      using updateParticle_Some by blast
    with free Cons.prems have l: "updateLoop (front @ [p1]) rest g1 = Some (ps', g')" by simp
    from updateLoop_prefix(1) [OF l] have t: "take (Suc (length front)) ps' = front @ [p1]" by simp
    then have "take (length front) (take (Suc (length front)) ps') = front"
      and "(take (Suc (length front)) ps') ! length front = p1" by simp_all
    then have "take (length front) ps' = front" "ps' ! length front = p1"
      by (simp_all add: min_def)
    with u 0 have "updateParticle (take (length front + i) ps') ((p # rest) ! i)
        (drop (Suc i) (p # rest)) (\<lambda>n. g (n + drawsBefore (p # rest) i)) =
        Some (ps' ! (length front + i), g1)"
      by (simp add: drawsBefore_simps)
    then show ?thesis by blast
  next
    case (Suc j)
    with Cons.prems have j: "j < length rest" "\<not> p_isAttached (rest ! j)" by simp_all
    show ?thesis
    proof (cases "p_isAttached p")
      case True
      with Cons.prems have l: "updateLoop (front @ [p]) rest g = Some (ps', g')" by simp
      from Cons.IH [OF l j] Suc True show ?thesis by (simp add: drawsBefore_simps)
    next
      case False
      obtain p1 g1 where u: "updateParticle front p rest g = Some (p1, g1)"
        using updateParticle_Some by blast
      with False Cons.prems have l: "updateLoop (front @ [p1]) rest g1 = Some (ps', g')" by simp
      from Cons.IH [OF l j] obtain g2 where
        "updateParticle (take (length (front @ [p1]) + j) ps') (rest ! j) (drop (Suc j) rest)
           (\<lambda>n. g1 (n + drawsBefore rest j)) = Some (ps' ! (length (front @ [p1]) + j), g2)" by blast
      moreover have "g1 = (\<lambda>n. g (Suc (Suc (Suc n))))" using updateParticle_rng [OF u] .
      moreover have "(\<lambda>n. g (Suc (Suc (Suc (n + drawsBefore rest j))))) =
          (\<lambda>n. g (n + drawsBefore (p # rest) (Suc j)))"
        using False by (simp add: drawsBefore_simps numeral_3_eq_3)
      ultimately have "updateParticle (take (length front + i) ps') ((p # rest) ! i)
          (drop (Suc i) (p # rest)) (\<lambda>n. g (n + drawsBefore (p # rest) i)) =
          Some (ps' ! (length front + i), g2)"
        using Suc by simp
      then show ?thesis by blast
    qed
  qed
qed

lemma updateParticles_turn:
  assumes "updateParticles ps g = Some (ps', g')"
    and "i < length ps" and "\<not> p_isAttached (ps ! i)"
  shows "\<exists>g1. updateParticle (take i ps') (ps ! i) (drop (Suc i) ps)
           (\<lambda>n. g (n + drawsBefore ps i)) = Some (ps' ! i, g1)"
  using updateLoop_turn [of "[]" ps g ps' g' i] assms by (simp add: updateParticles_def)

text \<open>The attached particles that a turn sees are attached particles of the final state.\<close>

lemma turn_sees_final:
  assumes u: "updateParticles ps g = Some (ps', g')"
    and i: "i < length ps"
    and q: "q \<in> set (take i ps' @ p3 # drop (Suc i) ps)" "p_isAttached q" "\<not> p_isAttached p3"
  shows "q \<in> set ps'"
proof -
  from q have "q \<in> set (take i ps') \<or> q \<in> set (drop (Suc i) ps)" by auto
  then show ?thesis
  proof
    assume "q \<in> set (take i ps')"
    then show ?thesis by (rule in_set_takeD)
  next
    assume "q \<in> set (drop (Suc i) ps)"
    then obtain j where j: "j < length ps" "ps ! j = q"
      by (metis in_set_conv_nth in_set_dropD)
    have "list_all2 (\<lambda>p p'. p_isAttached p \<longrightarrow> p' = p) ps ps'"
      by (rule updateParticles_attached [OF u])
    with j q(2) have "ps' ! j = q" "j < length ps'"
      by (auto simp: list_all2_conv_all_nth)
    then show ?thesis by (metis nth_mem)
  qed
qed

text \<open>
  Claim C5. In a tick, the turn of every free particle \<open>i\<close> runs the search for the
  moved particle \<open>m\<close> over the whole vector \<open>vs\<close> as it is then: the particles before
  \<open>i\<close> as the pass has left them, \<open>m\<close> itself and the particles after \<open>i\<close>. The
  search returns nothing only when no particle of \<open>vs\<close> is attached; otherwise it
  returns an attached particle of \<open>vs\<close> with its Euclidean distance to \<open>m\<close>, and no
  attached particle of \<open>vs\<close> is nearer to \<open>m\<close>. The attraction and the attachment
  test of the turn work on this result.
\<close>

theorem nearest_attached_minimum:
  assumes "i < length ps" and "\<not> p_isAttached (ps ! i)"
  shows "\<exists>ps' g' g1 m vs.
     updateParticles ps g = Some (ps', g') \<and>
     m = moved (ps ! i) (\<lambda>n. g (n + drawsBefore ps i)) \<and>
     vs = take i ps' @ m # drop (Suc i) ps \<and>
     length vs = length ps \<and>
     updateParticle (take i ps') (ps ! i) (drop (Suc i) ps) (\<lambda>n. g (n + drawsBefore ps i)) =
       Some (ps' ! i, g1) \<and>
     attract m (findNearest m vs None) = Some (ps' ! i) \<and>
     (case findNearest m vs None of
        None \<Rightarrow> \<forall>a\<in>set vs. \<not> p_isAttached a
      | Some (d, q) \<Rightarrow>
          q \<in> set vs \<and> p_isAttached q \<and> d = distance m q \<and>
          (\<forall>a\<in>set vs. p_isAttached a \<longrightarrow> d \<le> distance m a))"
proof -
  obtain ps' g' where u: "updateParticles ps g = Some (ps', g')"
    using updateParticles_Some by blast
  let ?h = "\<lambda>n. g (n + drawsBefore ps i)"
  let ?m = "moved (ps ! i) ?h"
  let ?vs = "take i ps' @ ?m # drop (Suc i) ps"
  from updateParticles_turn [OF u assms] obtain g1 where
    t: "updateParticle (take i ps') (ps ! i) (drop (Suc i) ps) ?h = Some (ps' ! i, g1)"
    by blast
  then have a: "attract ?m (findNearest ?m ?vs None) = Some (ps' ! i)"
    by (auto simp: updateParticle_eq split: option.splits)
  have "length ps' = length ps" using updateParticles_length [OF u] .
  with assms(1) have len: "length ?vs = length ps" by simp
  from u len t a findNearest_minimum [where p = ?m and ps = ?vs] show ?thesis by blast
qed

lemma findNearest_Some:
  assumes "findNearest p ps None = Some (d, q)"
  shows "q \<in> set ps" "p_isAttached q" "d = distance p q"
  using findNearest_invariant [where best = None and S = "{}" and p = p and ps = ps] assms
  by (simp_all add: isNearest_def)

lemma distance_position:
  assumes "p_x a = p_x b" "p_y a = p_y b" "p_z a = p_z b"
  shows "distance a q = distance b q"
  using assms by (simp add: distance_def)

lemma moved_over_boundary:
  assumes "p_x p = BOUNDARY + 0.01" and "p_dx p = 0.1"
  shows "p_x (moved p g) = BOUNDARY"
    and "g 0 mod 100 = 50 \<Longrightarrow> p_dx (moved p g) = - 0.05"
proof -
  define r where "r = real_of_int (int (g 0 mod 100) - 50)"
  have "g 0 mod 100 < 100" by simp
  then have "int (g 0 mod 100) < 100" by linarith
  then have r: "- 50 \<le> r" "r < 50" by (simp_all add: r_def)
  define p2 where "p2 = updatePosition (fst (brownianMotion p g))"
  have x2: "p_x p2 = 1.11 + r * 0.001" and dx2: "p_dx p2 = 0.1 + r * 0.001"
    using assms
    by (simp_all add: p2_def updatePosition_def brownianMotion_def rand_def r_def
        BOUNDARY_def BROWNIAN_MOTION_def)
  from x2 r have over: "1 < p_x p2" by simp
  then have "p_x (boundaryChecks p2) = BOUNDARY" "p_dx (boundaryChecks p2) = p_dx p2 * (- 0.5)"
    by (simp_all add: boundaryChecks_def Let_def BOUNDARY_def)
  then show "p_x (moved p g) = BOUNDARY"
    and "g 0 mod 100 = 50 \<Longrightarrow> p_dx (moved p g) = - 0.05"
    using dx2 by (simp_all add: moved_def p2_def r_def)
qed

text \<open>
  Claim C6, as amended. A free particle at \<open>x = BOUNDARY + 0.01\<close> with \<open>dx = 0.1\<close>
  is at \<open>x = BOUNDARY\<close> after one tick, whatever the random source and the other
  particles. Its \<open>dx\<close> is \<open>- 0.05\<close> when the Brownian motion adds nothing to its
  \<open>dx\<close> (the first call of \<^verbatim>\<open>rand()\<close> in its turn returns 50 modulo 100) and no
  attached particle of the new state is within \<open>ATTRACTION_RANGE\<close> of it.
\<close>

theorem bounce_at_boundary:
  assumes "i < length ps" and "\<not> p_isAttached (ps ! i)"
    and "p_x (ps ! i) = BOUNDARY + 0.01" and "p_dx (ps ! i) = 0.1"
  shows "\<exists>ps' g'. updateParticles ps g = Some (ps', g') \<and>
           p_x (ps' ! i) = BOUNDARY \<and>
           (g (drawsBefore ps i) mod 100 = 50 \<and>
            (\<forall>q\<in>set ps'. p_isAttached q \<longrightarrow> ATTRACTION_RANGE \<le> distance (ps' ! i) q) \<longrightarrow>
            p_dx (ps' ! i) = - 0.05)"
proof -
  obtain ps' g' where u: "updateParticles ps g = Some (ps', g')"
    using updateParticles_Some by blast
  let ?h = "\<lambda>n. g (n + drawsBefore ps i)"
  let ?m = "moved (ps ! i) ?h"
  let ?vs = "take i ps' @ ?m # drop (Suc i) ps"
  from updateParticles_turn [OF u assms(1,2)] obtain g1 where
    t: "updateParticle (take i ps') (ps ! i) (drop (Suc i) ps) ?h = Some (ps' ! i, g1)"
    by blast
  have pos: "p_x (ps' ! i) = p_x ?m" "p_y (ps' ! i) = p_y ?m" "p_z (ps' ! i) = p_z ?m"
    using updateParticle_position [OF t] .
  have x: "p_x (ps' ! i) = BOUNDARY"
    using pos(1) moved_over_boundary(1) [OF assms(3,4)] by simp
  have dx: "p_dx (ps' ! i) = - 0.05"
    if draw: "g (drawsBefore ps i) mod 100 = 50"
      and far: "\<forall>q\<in>set ps'. p_isAttached q \<longrightarrow> ATTRACTION_RANGE \<le> distance (ps' ! i) q"
  proof -
    have free: "\<not> p_isAttached ?m" using assms(2) by (simp add: moved_fields)
    have a: "attract ?m (findNearest ?m ?vs None) = Some (ps' ! i)"
      using t by (auto simp: updateParticle_eq split: option.splits)
    have "attract ?m (findNearest ?m ?vs None) = Some ?m"
    proof (cases "findNearest ?m ?vs None")
      case None
      then show ?thesis by (simp add: attract_def)
    next
      case (Some b)
      obtain d q where b: "b = (d, q)" by (cases b)
      from findNearest_Some [of ?m ?vs d q] Some b
      have q: "q \<in> set ?vs" "p_isAttached q" "d = distance ?m q" by simp_all
      from turn_sees_final [OF u assms(1) q(1,2) free] have "q \<in> set ps'" .
      with far q(2) have "ATTRACTION_RANGE \<le> distance (ps' ! i) q" by blast
      also have "distance (ps' ! i) q = distance ?m q"
        by (rule distance_position [OF pos])
      finally have "\<not> d < ATTRACTION_RANGE" using q(3) by simp
      with Some b show ?thesis by (simp add: attract_def)
    qed
    with a have "ps' ! i = ?m" by simp
    moreover have "?h 0 mod 100 = 50" using draw by simp
    ultimately show ?thesis
      using moved_over_boundary(2) [OF assms(3,4), of ?h] by simp
  qed
  from u x dx show ?thesis by blast
qed

section \<open>The approach to the seed\<close>

lemma unit_coordinate:
  fixes ux uy uz :: real
  assumes "ux * ux + uy * uy + uz * uz = 1"
  shows "\<bar>ux\<bar> \<le> 1" "\<bar>uy\<bar> \<le> 1" "\<bar>uz\<bar> \<le> 1"
proof -
  have sq: "0 \<le> ux * ux" "0 \<le> uy * uy" "0 \<le> uz * uz" by simp_all
  with assms have "ux * ux \<le> 1" "uy * uy \<le> 1" "uz * uz \<le> 1" by linarith+
  then have "ux\<^sup>2 \<le> 1\<^sup>2" "uy\<^sup>2 \<le> 1\<^sup>2" "uz\<^sup>2 \<le> 1\<^sup>2"
    by (simp_all add: power2_eq_square)
  then have "\<bar>ux\<bar> \<le> \<bar>1\<bar>" "\<bar>uy\<bar> \<le> \<bar>1\<bar>" "\<bar>uz\<bar> \<le> \<bar>1\<bar>"
    by (simp_all only: abs_le_square_iff)
  then show "\<bar>ux\<bar> \<le> 1" "\<bar>uy\<bar> \<le> 1" "\<bar>uz\<bar> \<le> 1" by simp_all
qed


lemma square_ray:
  fixes ux uy uz s :: real
  assumes "ux * ux + uy * uy + uz * uz = 1"
  shows "s * ux * (s * ux) + s * uy * (s * uy) + s * uz * (s * uz) = s * s"
proof -
  have "s * ux * (s * ux) + s * uy * (s * uy) + s * uz * (s * uz) =
      s * s * (ux * ux + uy * uy + uz * uz)"
    by (simp add: algebra_simps)
  with assms show ?thesis by simp
qed

lemma distance_ray:
  assumes "ux * ux + uy * uy + uz * uz = 1"
  shows "distance (rayParticle ux uy uz s w) seedParticle = \<bar>s\<bar>"
  by (simp add: distance_def rayParticle_def seedParticle_def newParticle_def
      square_ray [OF assms])

lemma moved_ray:
  assumes unit: "ux * ux + uy * uy + uz * uz = 1"
    and draws: "\<forall>n. g n mod 100 = 50"
    and small: "\<bar>s - w\<bar> \<le> 1"
  shows "moved (rayParticle ux uy uz s w) g = rayParticle ux uy uz (s - w) w"
proof -
  have d: "g 0 mod 100 = 50" "g (Suc 0) mod 100 = 50" "g (Suc (Suc 0)) mod 100 = 50"
    using draws by simp_all
  have b: "fst (brownianMotion (rayParticle ux uy uz s w) g) = rayParticle ux uy uz s w"
    by (simp add: brownianMotion_def rand_def d rayParticle_def)
  have m: "updatePosition (rayParticle ux uy uz s w) = rayParticle ux uy uz (s - w) w"
    by (simp add: updatePosition_def rayParticle_def newParticle_def algebra_simps)
  have "\<bar>(s - w) * ux\<bar> \<le> 1 * 1" "\<bar>(s - w) * uy\<bar> \<le> 1 * 1" "\<bar>(s - w) * uz\<bar> \<le> 1 * 1"
    unfolding abs_mult using small unit_coordinate [OF unit]
    by (simp_all add: mult_le_one)
  then have "boundaryChecks (rayParticle ux uy uz (s - w) w) = rayParticle ux uy uz (s - w) w"
    by (simp add: boundaryChecks_def BOUNDARY_def rayParticle_def newParticle_def abs_le_iff)
  with b m show ?thesis by (simp add: moved_def)
qed

lemma normalizeDirection_ray:
  fixes ux uy uz s :: real
  assumes "ux * ux + uy * uy + uz * uz = 1" and "0 < s"
  shows "normalizeDirection (- (s * ux), - (s * uy), - (s * uz)) = Some (- ux, - uy, - uz)"
  using assms(2)
  by (simp add: normalizeDirection_def fdiv_def square_ray [OF assms(1)])

lemma applyAttraction_ray:
  assumes "ux * ux + uy * uy + uz * uz = 1" and "0 < s"
  shows "applyAttraction (rayParticle ux uy uz s w) seedParticle =
           Some (rayParticle ux uy uz s (w + ATTRACTION_FORCE))"
  using normalizeDirection_ray [OF assms]
  by (simp add: applyAttraction_def rayParticle_def seedParticle_def newParticle_def algebra_simps)

lemma findNearest_seed:
  assumes "\<not> p_isAttached p"
  shows "findNearest p [seedParticle, p] None = Some (distance p seedParticle, seedParticle)"
  using assms by (simp add: seedParticle_def newParticle_def)


lemma tick_ray:
  assumes unit: "ux * ux + uy * uy + uz * uz = 1"
    and draws: "\<forall>n. g n mod 100 = 50"
    and pos: "0 < s - w" and range: "s - w < ATTRACTION_RANGE"
  shows "updateParticles [seedParticle, rayParticle ux uy uz s w] g =
           Some ([seedParticle,
                  if s - w < (p_radius seedParticle + PARTICLE_RADIUS) * 0.9
                  then rayAttached ux uy uz (s - w)
                  else rayParticle ux uy uz (s - w) (w + ATTRACTION_FORCE)],
                 \<lambda>n. g (Suc (Suc (Suc n))))"
proof -
  let ?p = "rayParticle ux uy uz s w" and ?m = "rayParticle ux uy uz (s - w) w"
  have "\<bar>s - w\<bar> \<le> 1" using pos range by (simp add: ATTRACTION_RANGE_def)
  from moved_ray [OF unit draws this] have m: "moved ?p g = ?m" .
  have free: "\<not> p_isAttached ?m" by (simp add: rayParticle_def newParticle_def)
  have near: "findNearest ?m [seedParticle, ?m] None = Some (s - w, seedParticle)"
    using findNearest_seed [OF free] distance_ray [OF unit, of "s - w" w] pos by simp
  have "attract ?m (Some (s - w, seedParticle)) =
      Some (if s - w < (p_radius seedParticle + PARTICLE_RADIUS) * 0.9
            then rayAttached ux uy uz (s - w)
            else rayParticle ux uy uz (s - w) (w + ATTRACTION_FORCE))"
    using range
    by (simp add: attract_def applyAttraction_ray [OF unit pos] checkAttachment_def)
      (simp add: rayParticle_def rayAttached_def newParticle_def)
  with m near have "updateParticle [seedParticle] ?p [] g =
      Some (if s - w < (p_radius seedParticle + PARTICLE_RADIUS) * 0.9
            then rayAttached ux uy uz (s - w)
            else rayParticle ux uy uz (s - w) (w + ATTRACTION_FORCE),
            \<lambda>n. g (Suc (Suc (Suc n))))"
    by (simp add: updateParticle_eq brownianMotion_rng)
  moreover have "p_isAttached seedParticle" "\<not> p_isAttached ?p"
    by (simp_all add: seedParticle_def rayParticle_def newParticle_def)
  ultimately show ?thesis by (simp add: updateParticles_def)
qed

lemma tick_all_attached:
  assumes "list_all p_isAttached ps"
  shows "updateParticles ps g = Some (ps, g)"
proof -
  have "updateLoop front ps g = Some (front @ ps, g)" for front
    using assms by (induction ps arbitrary: front) simp_all
  then show ?thesis by (simp add: updateParticles_def)
qed

lemma ticks_all_attached:
  assumes "list_all p_isAttached ps"
  shows "ticks n ps g = Some (ps, g)"
  by (induction n) (simp_all add: tick_all_attached [OF assms])

lemma ticks_add:
  "ticks (m + n) ps g =
     (case ticks m ps g of None \<Rightarrow> None | Some (ps', g') \<Rightarrow> ticks n ps' g')"
proof (induction m arbitrary: ps g)
  case 0
  show ?case by simp
next
  case (Suc m)
  show ?case
  proof (cases "updateParticles ps g")
    case None
    then show ?thesis by simp
  next
    case (Some a)
    then show ?thesis by (cases a) (simp add: Suc)
  qed
qed

lemma approach_step:
  fixes k :: nat
  shows "0.075 - 0.00025 * real (k * (k - 1)) - 0.0005 * real k = 0.075 - 0.00025 * real (Suc k * k)"
proof -
  define a b where "a = k * (k - 1)" and "b = Suc k * k"
  have "a + 2 * k = b" unfolding a_def b_def by (cases k) simp_all
  then have "real (a + 2 * k) = real b" by (rule arg_cong)
  then have "real a + 2 * real k = real b" by simp
  then have "0.075 - 0.00025 * real a - 0.0005 * real k = 0.075 - 0.00025 * real b" by simp
  then show ?thesis unfolding a_def b_def .
qed

lemma approach_bound:
  fixes k :: nat
  assumes "Suc k \<le> 9"
  shows "real (Suc k * k) \<le> 72"
proof -
  from assms have "Suc k * k \<le> 9 * 8" by (intro mult_le_mono) simp_all
  then have "real (Suc k * k) \<le> real (9 * 8)" by (rule of_nat_mono)
  also have "real (9 * 8) = 72" by simp
  finally show ?thesis .
qed

lemma ticks_Suc_end:
  "ticks (Suc n) ps g =
     (case ticks n ps g of None \<Rightarrow> None | Some (ps', g') \<Rightarrow> updateParticles ps' g')"
proof -
  have one: "ticks (Suc 0) qs h = updateParticles qs h" for qs h
    by (cases "updateParticles qs h") auto
  have "ticks (n + Suc 0) ps g =
      (case ticks n ps g of None \<Rightarrow> None | Some (ps', g') \<Rightarrow> ticks (Suc 0) ps' g')"
    by (rule ticks_add)
  then show ?thesis by (simp only: one add_Suc_right add_0_right)
qed

lemma approach_tick:
  assumes unit: "ux * ux + uy * uy + uz * uz = 1"
    and draws: "\<forall>n. g n mod 100 = 50"
    and k: "Suc k \<le> 9"
  shows "updateParticles
           [seedParticle,
            rayParticle ux uy uz (0.075 - 0.00025 * real (k * (k - 1))) (0.0005 * real k)] g =
         Some ([seedParticle,
                rayParticle ux uy uz (0.075 - 0.00025 * real (Suc k * (Suc k - 1)))
                  (0.0005 * real (Suc k))], \<lambda>n. g (Suc (Suc (Suc n))))"
proof -
  define s w where "s = 0.075 - 0.00025 * real (k * (k - 1))" and "w = 0.0005 * real k"
  define s' w' where "s' = 0.075 - 0.00025 * real (Suc k * k)" and "w' = 0.0005 * real (Suc k)"
  have s': "s - w = s'" unfolding s_def w_def s'_def by (rule approach_step)
  have w': "w + ATTRACTION_FORCE = w'"
    by (simp add: w_def w'_def ATTRACTION_FORCE_def algebra_simps)
  define b where "b = real (Suc k * k)"
  have "b \<le> 72" "0 \<le> b"
    unfolding b_def using approach_bound [OF k] by simp_all
  then have c: "0 < s'" "s' < ATTRACTION_RANGE"
    "\<not> s' < (p_radius seedParticle + PARTICLE_RADIUS) * 0.9"
    unfolding s'_def b_def [symmetric]
    by (simp_all add: ATTRACTION_RANGE_def seedParticle_def PARTICLE_RADIUS_def)
  have "updateParticles [seedParticle, rayParticle ux uy uz s w] g =
      Some ([seedParticle,
             if s - w < (p_radius seedParticle + PARTICLE_RADIUS) * 0.9
             then rayAttached ux uy uz (s - w)
             else rayParticle ux uy uz (s - w) (w + ATTRACTION_FORCE)],
            \<lambda>n. g (Suc (Suc (Suc n))))"
    by (rule tick_ray [OF unit draws]) (simp_all only: s' c)
  then have "updateParticles [seedParticle, rayParticle ux uy uz s w] g =
      Some ([seedParticle, rayParticle ux uy uz s' w'], \<lambda>n. g (Suc (Suc (Suc n))))"
    by (simp only: s' w' c if_False)
  moreover have "Suc k - 1 = k" by simp
  ultimately show ?thesis
    unfolding s_def w_def s'_def w'_def by (simp only:)
qed

lemma approach:
  assumes unit: "ux * ux + uy * uy + uz * uz = 1"
    and draws: "\<forall>n. g n mod 100 = 50"
    and k: "k \<le> 9"
  shows "\<exists>g'. (\<forall>n. g' n mod 100 = 50) \<and>
           ticks k [seedParticle, rayParticle ux uy uz 0.075 0] g =
             Some ([seedParticle,
                    rayParticle ux uy uz (0.075 - 0.00025 * real (k * (k - 1))) (0.0005 * real k)], g')"
  using k
proof (induction k)
  case 0
  have "ticks 0 [seedParticle, rayParticle ux uy uz 0.075 0] g =
      Some ([seedParticle, rayParticle ux uy uz (0.075 - 0.00025 * real (0 * (0 - 1))) (0.0005 * real 0)], g)"
    by simp
  with draws show ?case by (intro exI [where x = g] conjI)
next
  case (Suc k)
  from Suc.prems have "k \<le> 9" by simp
  from Suc.IH [OF this] obtain g1 where g1: "\<forall>n. g1 n mod 100 = 50"
    and t: "ticks k [seedParticle, rayParticle ux uy uz 0.075 0] g =
       Some ([seedParticle,
              rayParticle ux uy uz (0.075 - 0.00025 * real (k * (k - 1))) (0.0005 * real k)], g1)"
    by blast
  have a: "ticks (Suc k) [seedParticle, rayParticle ux uy uz 0.075 0] g =
      Some ([seedParticle,
             rayParticle ux uy uz (0.075 - 0.00025 * real (Suc k * (Suc k - 1)))
               (0.0005 * real (Suc k))], \<lambda>n. g1 (Suc (Suc (Suc n))))"
    by (simp only: ticks_Suc_end t option.case prod.case approach_tick [OF unit g1 Suc.prems])
  have b: "\<forall>n. g1 (Suc (Suc (Suc n))) mod 100 = 50" using g1 by simp
  show ?case
    by (rule exI [where x = "\<lambda>n. g1 (Suc (Suc (Suc n)))"]) (rule conjI [OF b a])
qed

lemma arrival:
  assumes unit: "ux * ux + uy * uy + uz * uz = 1"
    and draws: "\<forall>n. g n mod 100 = 50"
    and k: "10 \<le> k"
  shows "\<exists>g'. ticks k [seedParticle, rayParticle ux uy uz 0.075 0] g =
           Some ([seedParticle, rayAttached ux uy uz 0.0525], g')"
proof -
  have "real (9 * (9 - 1)) = 72" by simp
  then have n: "0.075 - 0.00025 * real (9 * (9 - 1)) = 0.057" "0.0005 * real 9 = 0.0045"
    by simp_all
  from approach [OF unit draws, of 9] obtain g1 where g1: "\<forall>n. g1 n mod 100 = 50"
    and t9: "ticks 9 [seedParticle, rayParticle ux uy uz 0.075 0] g =
       Some ([seedParticle, rayParticle ux uy uz 0.057 0.0045], g1)"
    unfolding n by auto
  let ?g2 = "\<lambda>n. g1 (Suc (Suc (Suc n)))"
  have "(0.057::real) - 0.0045 = 0.0525" by simp
  then have "updateParticles [seedParticle, rayParticle ux uy uz 0.057 0.0045] g1 =
      Some ([seedParticle, rayAttached ux uy uz 0.0525], ?g2)"
    using tick_ray [OF unit g1, of "0.057" "0.0045"]
    by (simp add: ATTRACTION_RANGE_def seedParticle_def PARTICLE_RADIUS_def)
  with t9 have t10: "ticks (9 + 1) [seedParticle, rayParticle ux uy uz 0.075 0] g =
      Some ([seedParticle, rayAttached ux uy uz 0.0525], ?g2)"
    by (simp only: ticks_add ticks_Suc_end One_nat_def ticks.simps option.case prod.case)
  have "list_all p_isAttached [seedParticle, rayAttached ux uy uz 0.0525]"
    by (simp add: seedParticle_def rayAttached_def newParticle_def)
  from ticks_all_attached [OF this]
  have "ticks (k - 10) [seedParticle, rayAttached ux uy uz 0.0525] ?g2 =
      Some ([seedParticle, rayAttached ux uy uz 0.0525], ?g2)" .
  with t10 have "ticks (9 + 1 + (k - 10)) [seedParticle, rayParticle ux uy uz 0.075 0] g =
      Some ([seedParticle, rayAttached ux uy uz 0.0525], ?g2)"
    by (simp only: ticks_add [of "9 + 1"] option.case prod.case)
  moreover have "9 + 1 + (k - 10) = k" using k by simp
  ultimately show ?thesis by auto
qed

lemma distance_rayAttached:
  assumes "ux * ux + uy * uy + uz * uz = 1"
  shows "distance (rayAttached ux uy uz s) seedParticle = \<bar>s\<bar>"
  by (simp add: distance_def rayAttached_def seedParticle_def newParticle_def
      square_ray [OF assms])

text \<open>
  Claim C4, as amended. The seed of the initialisation is at the origin and a free
  particle with zero velocity at distance \<open>0.5 * ATTRACTION_RANGE\<close> from it, in any
  direction; the Brownian motion adds nothing. After \<open>k\<close> ticks, \<open>k < 10\<close>, the
  particle is free at distance \<open>0.075 - 0.00025 * k * (k - 1)\<close>, not below the threshold
  \<open>0.9 * (0.04 + 0.02)\<close>: the first tick leaves the distance at \<open>0.075\<close> and each of
  the ticks 2 to 9 decreases it. The tenth tick brings it to \<open>0.0525\<close>, below the
  threshold: the particle is attached, its radius is its initial radius plus
  \<open>GROWTH_RATE\<close>, and it stays at that place in every later tick.
\<close>

theorem approach_and_attach:
  assumes "ux * ux + uy * uy + uz * uz = 1" and "\<forall>n. g n mod 100 = 50"
  shows "\<exists>ps g'.
     ticks k [seedParticle,
              newParticle (0.5 * ATTRACTION_RANGE * ux) (0.5 * ATTRACTION_RANGE * uy)
                (0.5 * ATTRACTION_RANGE * uz) False] g = Some (ps, g') \<and>
     length ps = 2 \<and> ps ! 0 = seedParticle \<and>
     (if k < 10
      then \<not> p_isAttached (ps ! 1) \<and> p_radius (ps ! 1) = PARTICLE_RADIUS \<and>
           distance (ps ! 1) seedParticle = 0.075 - 0.00025 * real (k * (k - 1)) \<and>
           (p_radius seedParticle + PARTICLE_RADIUS) * 0.9 \<le> distance (ps ! 1) seedParticle
      else p_isAttached (ps ! 1) \<and> p_radius (ps ! 1) = PARTICLE_RADIUS + GROWTH_RATE \<and>
           p_x (ps ! 1) = 0.0525 * ux \<and> p_y (ps ! 1) = 0.0525 * uy \<and> p_z (ps ! 1) = 0.0525 * uz \<and>
           distance (ps ! 1) seedParticle = 0.0525 \<and>
           distance (ps ! 1) seedParticle < (p_radius seedParticle + PARTICLE_RADIUS) * 0.9)"
proof -
  have start: "newParticle (0.5 * ATTRACTION_RANGE * ux) (0.5 * ATTRACTION_RANGE * uy)
      (0.5 * ATTRACTION_RANGE * uz) False = rayParticle ux uy uz 0.075 0"
    by (simp add: rayParticle_def newParticle_def ATTRACTION_RANGE_def)
  show ?thesis
  proof (cases "k < 10")
    case True
    then have k: "k \<le> 9" by simp
    define s w where "s = 0.075 - 0.00025 * real (k * (k - 1))" and "w = 0.0005 * real k"
    from approach [OF assms k] obtain g' where
      t: "ticks k [seedParticle, rayParticle ux uy uz 0.075 0] g =
         Some ([seedParticle, rayParticle ux uy uz s w], g')"
      unfolding s_def w_def by blast
    have "k * (k - 1) \<le> 9 * 8" using k by (intro mult_le_mono) simp_all
    then have "real (k * (k - 1)) \<le> real (9 * 8)" by (rule of_nat_mono)
    also have "real (9 * 8) = 72" by simp
    finally have "0.054 \<le> s" unfolding s_def by simp
    then have "(p_radius seedParticle + PARTICLE_RADIUS) * 0.9 \<le> s" "\<bar>s\<bar> = s"
      by (simp_all add: seedParticle_def PARTICLE_RADIUS_def)
    moreover have "\<not> p_isAttached (rayParticle ux uy uz s w)"
      "p_radius (rayParticle ux uy uz s w) = PARTICLE_RADIUS"
      by (simp_all add: rayParticle_def newParticle_def)
    ultimately show ?thesis
      unfolding start s_def [symmetric]
      using True t distance_ray [OF assms(1), of s w] by simp
  next
    case False
    then have k: "10 \<le> k" by simp
    from arrival [OF assms k] obtain g' where
      t: "ticks k [seedParticle, rayParticle ux uy uz 0.075 0] g =
         Some ([seedParticle, rayAttached ux uy uz 0.0525], g')"
      by blast
    have "distance (rayAttached ux uy uz 0.0525) seedParticle = 0.0525"
      using distance_rayAttached [OF assms(1), of "0.0525"] by simp
    moreover have "(0.0525::real) < (p_radius seedParticle + PARTICLE_RADIUS) * 0.9"
      by (simp add: seedParticle_def PARTICLE_RADIUS_def)
    moreover have "p_isAttached (rayAttached ux uy uz 0.0525)"
      "p_radius (rayAttached ux uy uz 0.0525) = PARTICLE_RADIUS + GROWTH_RATE"
      "p_x (rayAttached ux uy uz 0.0525) = 0.0525 * ux"
      "p_y (rayAttached ux uy uz 0.0525) = 0.0525 * uy"
      "p_z (rayAttached ux uy uz 0.0525) = 0.0525 * uz"
      by (simp_all add: rayAttached_def newParticle_def)
    ultimately show ?thesis
      unfolding start using False t by simp
  qed
qed

section \<open>The order of the vector\<close>

lemma findNearest_filter:
  "findNearest p ps best = findNearest p (filter p_isAttached ps) best"
  by (induction ps arbitrary: best) (simp_all add: Let_def)













section \<open>Examples\<close>

lemma rand_constRng: "rand (constRng c) = (c, constRng c)"
  by (simp add: rand_def constRng_def)

lemma rand_consRng: "rand (consRng r g) = (r, g)"
  by (simp add: rand_def consRng_def)

lemma distance_x_axis:
  "p_y a = p_y b \<Longrightarrow> p_z a = p_z b \<Longrightarrow> distance a b = \<bar>p_x a - p_x b\<bar>"
  by (simp add: distance_def)

lemma normalizeDirection_x_axis: "normalizeDirection (d, 0, 0) = Some (sgn d, 0, 0)"
  by (auto simp: normalizeDirection_def fdiv_def sgn_real_def Let_def zero_less_mult_iff)

lemma applyAttraction_x_axis:
  "p_y q = p_y p \<Longrightarrow> p_z q = p_z p \<Longrightarrow>
   applyAttraction p q = Some (p\<lparr>p_dx := p_dx p + sgn (p_x q - p_x p) * ATTRACTION_FORCE\<rparr>)"
  by (simp add: applyAttraction_def normalizeDirection_x_axis)

lemmas example_defs = seedParticle_def particleAt_def attachedAt_def newParticle_def
  PARTICLE_RADIUS_def GROWTH_RATE_def

lemmas tick_defs = updateParticles_def updateParticle_def brownianMotion_def
  rand_constRng rand_consRng updatePosition_def boundaryChecks_def attract_def
  checkAttachment_def distance_x_axis applyAttraction_x_axis Let_def
  BOUNDARY_def ATTRACTION_RANGE_def ATTRACTION_FORCE_def BROWNIAN_MOTION_def

lemma init_example:
  "initializeSimulationN (Suc 0) [] (consRng 105 (consRng 100 (consRng 100 (constRng 50)))) =
     ([seedParticle, particleAt 0.05], constRng 50)"
  by (simp add: initializeSimulationN_def rand_constRng rand_consRng example_defs)

lemma tick_example:
  "updateParticles [seedParticle, particleAt 0.05] (constRng 50) =
     Some ([seedParticle, attachedAt 0.05], constRng 50)"
  by (simp add: tick_defs example_defs)

lemma reachable_example: "reachable [seedParticle, attachedAt 0.05]"
  by (rule reachable.tick [OF reachable.initial [OF init_example] tick_example])

text \<open>
  An instance: the free particle created at \<open>(0.05, 0, 0)\<close> attaches in the first tick;
  seven ticks later it is still attached, at the same place and at rest.
\<close>

theorem attachment_irreversible_witness:
  "reachable [seedParticle, attachedAt 0.05] \<and>
   p_isAttached ([seedParticle, attachedAt 0.05] ! 1) \<and>
   (\<exists>ps' g'. ticks 7 [seedParticle, attachedAt 0.05] (constRng 3) = Some (ps', g') \<and>
      p_isAttached (ps' ! 1) \<and>
      p_x (ps' ! 1) = 0.05 \<and> p_y (ps' ! 1) = 0 \<and> p_z (ps' ! 1) = 0 \<and>
      p_dx (ps' ! 1) = 0 \<and> p_dy (ps' ! 1) = 0 \<and> p_dz (ps' ! 1) = 0)"
  using attachment_irreversible [of 1 "[seedParticle, attachedAt 0.05]" 7 "constRng 3"]
    reachable_example
  by (auto simp: example_defs)

text \<open>An instance: the particle at \<open>(0.05, 0, 0)\<close> attaches and grows by \<open>GROWTH_RATE\<close>.\<close>

theorem radius_monotone_witness:
  "updateParticles [seedParticle, particleAt 0.05] (constRng 50) =
     Some ([seedParticle, attachedAt 0.05], constRng 50) \<and>
   \<not> p_isAttached (particleAt 0.05) \<and> p_isAttached (attachedAt 0.05) \<and>
   p_radius (particleAt 0.05) < p_radius (attachedAt 0.05) \<and>
   p_radius (attachedAt 0.05) = p_radius (particleAt 0.05) + GROWTH_RATE"
  using radius_monotone [of 1 "[seedParticle, particleAt 0.05]" "constRng 50"] tick_example
  by (simp add: example_defs)

text \<open>
  An instance: a particle that moves from \<open>0.99\<close> across the boundary is put back on
  it; and a state of the program.
\<close>

theorem boundary_containment_witness:
  "list_all inBounds [(particleAt 0.99)\<lparr>p_dx := 0.1\<rparr>] \<and>
   (\<exists>ps' g'. updateParticles [(particleAt 0.99)\<lparr>p_dx := 0.1\<rparr>] (constRng 50) = Some (ps', g') \<and>
      list_all inBounds ps') \<and>
   reachable [seedParticle, attachedAt 0.05] \<and>
   list_all inBounds [seedParticle, attachedAt 0.05]"
  using boundary_containment [of "[(particleAt 0.99)\<lparr>p_dx := 0.1\<rparr>]" "constRng 50"]
    boundary_containment [of "[seedParticle, attachedAt 0.05]" "constRng 50"]
    reachable_example
  by (simp add: example_defs inBounds_def BOUNDARY_def)

text \<open>An instance: a free particle at the very place of an attached one.\<close>

theorem no_division_by_zero_witness:
  "distance (particleAt 0.3) (attachedAt 0.3) = 0 \<and>
   applyAttraction (particleAt 0.3) (attachedAt 0.3) = Some (particleAt 0.3) \<and>
   (\<exists>ps' g'. updateParticles [attachedAt 0.3, particleAt 0.3] (constRng 50) = Some (ps', g'))"
  using no_division_by_zero [where ps = "[attachedAt 0.3, particleAt 0.3]" and g = "constRng 50"
      and n = 0 and p = "particleAt 0.3" and q = "attachedAt 0.3"]
  by (simp add: distance_x_axis example_defs)

lemma tick_bounce_51:
  "updateParticles [(particleAt 1.01)\<lparr>p_dx := 0.1\<rparr>] (consRng 51 (constRng 50)) =
     Some ([(particleAt 1)\<lparr>p_dx := - 0.0505\<rparr>], constRng 50)"
  by (simp add: tick_defs example_defs)

text \<open>
  Claim C6 as stated fails: the particle alone in the vector, with 51 as the first
  value of \<^verbatim>\<open>rand()\<close>, ends with \<open>dx = - 0.0505\<close>.
\<close>

theorem bounce_at_boundary_counterexample:
  "\<not> p_isAttached ((particleAt 1.01)\<lparr>p_dx := 0.1\<rparr>) \<and>
   p_x ((particleAt 1.01)\<lparr>p_dx := 0.1\<rparr>) = BOUNDARY + 0.01 \<and>
   p_dx ((particleAt 1.01)\<lparr>p_dx := 0.1\<rparr>) = 0.1 \<and>
   updateParticles [(particleAt 1.01)\<lparr>p_dx := 0.1\<rparr>] (consRng 51 (constRng 50)) =
     Some ([(particleAt 1)\<lparr>p_dx := - 0.0505\<rparr>], constRng 50) \<and>
   p_dx ((particleAt 1)\<lparr>p_dx := - 0.0505\<rparr>) \<noteq> - 0.05"
  using tick_bounce_51 by (simp add: example_defs BOUNDARY_def)

lemma distance_ge_x: "\<bar>p_x a - p_x b\<bar> \<le> distance a b"
proof -
  let ?dx = "p_x a - p_x b" and ?dy = "p_y a - p_y b" and ?dz = "p_z a - p_z b"
  have "sqrt (?dx * ?dx) \<le> sqrt (?dx * ?dx + ?dy * ?dy + ?dz * ?dz)"
    by (rule real_sqrt_le_mono) (simp add: add.assoc)
  then show ?thesis by (simp add: distance_def Let_def)
qed

lemma tick_bounce_own_draw:
  "updateParticles [seedParticle, (particleAt 1.01)\<lparr>p_dx := 0.1\<rparr>] (consRng 50 (constRng 7)) =
     Some ([seedParticle,
            \<lparr>p_x = 1, p_y = - 0.043, p_z = - 0.043, p_radius = 0.02, p_isAttached = False,
             p_dx = - 0.05, p_dy = - 0.043, p_dz = - 0.043\<rparr>], constRng 7)"
proof -
  let ?p = "(particleAt 1.01)\<lparr>p_dx := 0.1\<rparr>"
  let ?r = "\<lparr>p_x = 1, p_y = - 0.043, p_z = - 0.043, p_radius = 0.02, p_isAttached = False,
      p_dx = - 0.05, p_dy = - 0.043, p_dz = - 0.043\<rparr>"
  have m: "moved ?p (consRng 50 (constRng 7)) = ?r"
    by (simp add: moved_def brownianMotion_def rand_constRng rand_consRng updatePosition_def
        boundaryChecks_def Let_def BOUNDARY_def BROWNIAN_MOTION_def example_defs)
  have g: "snd (brownianMotion ?p (consRng 50 (constRng 7))) = constRng 7"
    by (simp add: brownianMotion_def rand_constRng rand_consRng)
  have n: "findNearest ?r [seedParticle, ?r] None = Some (distance ?r seedParticle, seedParticle)"
    by (rule findNearest_seed) simp
  have "ATTRACTION_RANGE \<le> \<bar>p_x ?r - p_x seedParticle\<bar>"
    by (simp add: ATTRACTION_RANGE_def example_defs)
  also have "\<dots> \<le> distance ?r seedParticle" by (rule distance_ge_x)
  finally have "\<not> distance ?r seedParticle < ATTRACTION_RANGE" by simp
  then have "attract ?r (Some (distance ?r seedParticle, seedParticle)) = Some ?r"
    by (simp add: attract_def)
  with m g n have "updateParticle [seedParticle] ?p [] (consRng 50 (constRng 7)) =
      Some (?r, constRng 7)"
    by (simp add: updateParticle_eq)
  moreover have "p_isAttached seedParticle" "\<not> p_isAttached ?p"
    by (simp_all add: example_defs)
  ultimately show ?thesis by (simp add: updateParticles_def)
qed

text \<open>
  An instance: the seed, out of range at the origin; the draw for \<open>dx\<close> is 50 and
  the draws for \<open>dy\<close> and \<open>dz\<close> are 7.
\<close>

theorem bounce_at_boundary_witness:
  "updateParticles [seedParticle, (particleAt 1.01)\<lparr>p_dx := 0.1\<rparr>] (consRng 50 (constRng 7)) =
     Some ([seedParticle,
            \<lparr>p_x = 1, p_y = - 0.043, p_z = - 0.043, p_radius = 0.02, p_isAttached = False,
             p_dx = - 0.05, p_dy = - 0.043, p_dz = - 0.043\<rparr>], constRng 7) \<and>
   drawsBefore [seedParticle, (particleAt 1.01)\<lparr>p_dx := 0.1\<rparr>] 1 = 0 \<and>
   consRng 50 (constRng 7) 0 mod 100 = 50 \<and>
   consRng 50 (constRng 7) 1 mod 100 = 7 \<and>
   ATTRACTION_RANGE \<le> distance
     \<lparr>p_x = 1, p_y = - 0.043, p_z = - 0.043, p_radius = 0.02, p_isAttached = False,
      p_dx = - 0.05, p_dy = - 0.043, p_dz = - 0.043\<rparr> seedParticle \<and>
   p_x ([seedParticle,
         \<lparr>p_x = 1, p_y = - 0.043, p_z = - 0.043, p_radius = 0.02, p_isAttached = False,
          p_dx = - 0.05, p_dy = - 0.043, p_dz = - 0.043\<rparr>] ! 1) = BOUNDARY \<and>
   p_dx ([seedParticle,
         \<lparr>p_x = 1, p_y = - 0.043, p_z = - 0.043, p_radius = 0.02, p_isAttached = False,
          p_dx = - 0.05, p_dy = - 0.043, p_dz = - 0.043\<rparr>] ! 1) = - 0.05"
proof -
  let ?r = "\<lparr>p_x = 1, p_y = - 0.043, p_z = - 0.043, p_radius = 0.02, p_isAttached = False,
      p_dx = - 0.05, p_dy = - 0.043, p_dz = - 0.043\<rparr>"
  have far: "ATTRACTION_RANGE \<le> distance ?r seedParticle"
  proof -
    have "ATTRACTION_RANGE \<le> \<bar>p_x ?r - p_x seedParticle\<bar>"
      by (simp add: ATTRACTION_RANGE_def example_defs)
    also have "\<dots> \<le> distance ?r seedParticle" by (rule distance_ge_x)
    finally show ?thesis .
  qed
  have d: "drawsBefore [seedParticle, (particleAt 1.01)\<lparr>p_dx := 0.1\<rparr>] 1 = 0"
    by (simp add: drawsBefore_def example_defs)
  have g: "consRng 50 (constRng 7) 0 mod 100 = 50" "consRng 50 (constRng 7) 1 mod 100 = 7"
    by (simp_all add: consRng_def constRng_def)
  from bounce_at_boundary [of 1 "[seedParticle, (particleAt 1.01)\<lparr>p_dx := 0.1\<rparr>]"
      "consRng 50 (constRng 7)"]
  have "p_x ([seedParticle, ?r] ! 1) = BOUNDARY \<and> p_dx ([seedParticle, ?r] ! 1) = - 0.05"
    using tick_bounce_own_draw far d g(1)
    by (simp add: example_defs BOUNDARY_def)
  with tick_bounce_own_draw far d g show ?thesis by (simp only: simp_thms)
qed

lemma tick_chain:
  "updateParticles [seedParticle, particleAt 0.05, particleAt 0.085] (constRng 50) =
     Some ([seedParticle, attachedAt 0.05, attachedAt 0.085], constRng 50)"
  by (simp add: tick_defs example_defs)

lemma tick_chain_swapped:
  "updateParticles [seedParticle, particleAt 0.085, particleAt 0.05] (constRng 50) =
     Some ([seedParticle, (particleAt 0.085)\<lparr>p_dx := - 0.0005\<rparr>, attachedAt 0.05], constRng 50)"
  by (simp add: tick_defs example_defs)

lemma moved_still: "moved (particleAt x) (constRng 50) = particleAt x" if "- 1 \<le> x" "x \<le> 1"
  using that
  by (simp add: moved_def brownianMotion_def rand_constRng updatePosition_def boundaryChecks_def
      Let_def BOUNDARY_def example_defs)

lemma search_chain:
  "findNearest (particleAt 0.085) [seedParticle, attachedAt 0.05, particleAt 0.085] None =
     Some (0.035, attachedAt 0.05)"
  by (simp add: distance_x_axis example_defs)

lemma turn_chain:
  "updateParticle [seedParticle, attachedAt 0.05] (particleAt 0.085) [] (constRng 50) =
     Some (attachedAt 0.085, constRng 50)"
  by (simp add: tick_defs example_defs)

lemma turn_chain_old:
  "updateParticle [seedParticle, particleAt 0.05] (particleAt 0.085) [] (constRng 50) =
     Some ((particleAt 0.085)\<lparr>p_dx := - 0.0005\<rparr>, constRng 50)"
  by (simp add: tick_defs example_defs)

text \<open>
  Claim C10. In one tick of the vector that holds the seed and free particles at
  \<open>0.05\<close> and \<open>0.085\<close> on the first axis, both free particles end attached. In the
  turn of the second, the nearest attached particle is the first one, attached earlier in
  the same pass; against the first particle as it was before the pass, the second would
  have stayed free.
\<close>

theorem attached_in_same_pass:
  "updateParticles [seedParticle, particleAt 0.05, particleAt 0.085] (constRng 50) =
     Some ([seedParticle, attachedAt 0.05, attachedAt 0.085], constRng 50) \<and>
   findNearest (moved (particleAt 0.085) (constRng 50))
     ([seedParticle, attachedAt 0.05] @ moved (particleAt 0.085) (constRng 50) # []) None =
     Some (0.035, attachedAt 0.05) \<and>
   updateParticle [seedParticle, attachedAt 0.05] (particleAt 0.085) [] (constRng 50) =
     Some (attachedAt 0.085, constRng 50) \<and>
   updateParticle [seedParticle, particleAt 0.05] (particleAt 0.085) [] (constRng 50) =
     Some ((particleAt 0.085)\<lparr>p_dx := - 0.0005\<rparr>, constRng 50)"
  using tick_chain search_chain turn_chain turn_chain_old
  by (simp add: moved_still)

lemma tick_first:
  "updateParticles [seedParticle, particleAt (0.5 * ATTRACTION_RANGE)] (constRng 50) =
     Some ([seedParticle, (particleAt 0.075)\<lparr>p_dx := - 0.0005\<rparr>], constRng 50)"
  by (simp add: tick_defs example_defs)

text \<open>
  Claim C4 as stated fails in the first tick: the velocity is still zero when the position
  is updated, so the distance stays at \<open>0.075\<close>, and the particle is not attached.
\<close>

theorem approach_and_attach_counterexample:
  "updateParticles [seedParticle, particleAt (0.5 * ATTRACTION_RANGE)] (constRng 50) =
     Some ([seedParticle, (particleAt 0.075)\<lparr>p_dx := - 0.0005\<rparr>], constRng 50) \<and>
   distance (particleAt (0.5 * ATTRACTION_RANGE)) seedParticle = 0.075 \<and>
   distance ((particleAt 0.075)\<lparr>p_dx := - 0.0005\<rparr>) seedParticle = 0.075 \<and>
   \<not> p_isAttached ((particleAt 0.075)\<lparr>p_dx := - 0.0005\<rparr>)"
  using tick_first
  by (simp add: distance_x_axis example_defs ATTRACTION_RANGE_def)

text \<open>An instance: the approach along the first axis, after two and after ten ticks.\<close>

theorem approach_and_attach_witness:
  "(1::real) * 1 + 0 * 0 + 0 * 0 = 1 \<and> constRng 50 0 mod 100 = 50 \<and>
   (\<exists>ps g'. ticks 2 [seedParticle, newParticle (0.5 * ATTRACTION_RANGE * 1)
        (0.5 * ATTRACTION_RANGE * 0) (0.5 * ATTRACTION_RANGE * 0) False] (constRng 50) = Some (ps, g') \<and>
      \<not> p_isAttached (ps ! 1) \<and> distance (ps ! 1) seedParticle = 0.0745) \<and>
   (\<exists>ps g'. ticks 10 [seedParticle, newParticle (0.5 * ATTRACTION_RANGE * 1)
        (0.5 * ATTRACTION_RANGE * 0) (0.5 * ATTRACTION_RANGE * 0) False] (constRng 50) = Some (ps, g') \<and>
      p_isAttached (ps ! 1) \<and> p_radius (ps ! 1) = PARTICLE_RADIUS + GROWTH_RATE \<and>
      p_x (ps ! 1) = 0.0525)"
proof -
  have unit: "(1::real) * 1 + 0 * 0 + 0 * 0 = 1" by simp
  have draws: "\<forall>n. constRng 50 n mod 100 = 50" by (simp add: constRng_def)
  have "real (2 * (2 - 1)) = 2" by simp
  then have d: "0.075 - 0.00025 * real (2 * (2 - 1)) = 0.0745" by simp
  from approach_and_attach [OF unit draws, of 2] approach_and_attach [OF unit draws, of 10]
  show ?thesis unfolding d by (auto simp: constRng_def)
qed







lemma tick_search:
  "updateParticles [seedParticle, attachedAt 0.9, particleAt 0.46, particleAt 0.5, attachedAt 0.3]
     (constRng 50) =
   Some ([seedParticle, attachedAt 0.9, particleAt 0.46, particleAt 0.5, attachedAt 0.3],
     constRng 50)"
  by (simp add: tick_defs example_defs)

lemma search_example:
  "findNearest (particleAt 0.5)
     [seedParticle, attachedAt 0.9, particleAt 0.46, particleAt 0.5, attachedAt 0.3] None =
   Some (0.2, attachedAt 0.3)"
  by (simp add: distance_x_axis example_defs)

text \<open>
  An instance: the turn of the particle at \<open>0.5\<close>. The search skips the nearer free
  particle at \<open>0.46\<close> and finds the attached particle at \<open>0.3\<close>, which comes after
  it in the vector.
\<close>

theorem nearest_attached_minimum_witness:
  "updateParticles [seedParticle, attachedAt 0.9, particleAt 0.46, particleAt 0.5, attachedAt 0.3]
     (constRng 50) =
   Some ([seedParticle, attachedAt 0.9, particleAt 0.46, particleAt 0.5, attachedAt 0.3],
     constRng 50) \<and>
   drawsBefore [seedParticle, attachedAt 0.9, particleAt 0.46, particleAt 0.5, attachedAt 0.3] 3 = 3 \<and>
   moved (particleAt 0.5) (constRng 50) = particleAt 0.5 \<and>
   findNearest (particleAt 0.5)
     [seedParticle, attachedAt 0.9, particleAt 0.46, particleAt 0.5, attachedAt 0.3] None =
     Some (0.2, attachedAt 0.3) \<and>
   attract (particleAt 0.5) (Some (0.2, attachedAt 0.3)) = Some (particleAt 0.5) \<and>
   0.2 \<le> distance (particleAt 0.5) seedParticle \<and>
   0.2 \<le> distance (particleAt 0.5) (attachedAt 0.9)"
proof -
  let ?ps = "[seedParticle, attachedAt 0.9, particleAt 0.46, particleAt 0.5, attachedAt 0.3]"
  have d: "drawsBefore ?ps 3 = 3"
    by (simp add: drawsBefore_def example_defs numeral_3_eq_3)
  have h: "(\<lambda>n. constRng 50 (n + drawsBefore ?ps 3)) = constRng 50"
    by (simp add: constRng_def)
  have mv: "moved (particleAt 0.5) (constRng 50) = particleAt 0.5"
    by (rule moved_still) simp_all
  have i: "3 < length ?ps" "\<not> p_isAttached (?ps ! 3)"
    by (simp_all add: example_defs)
  have vs: "take 3 ?ps @ particleAt 0.5 # drop (Suc 3) ?ps = ?ps"
    by (simp add: numeral_3_eq_3)
  have nth: "?ps ! 3 = particleAt 0.5" by (simp add: numeral_3_eq_3)
  from nearest_attached_minimum [OF i, of "constRng 50"]
  obtain ps' g' g1 m vs where u: "updateParticles ?ps (constRng 50) = Some (ps', g')"
    and m: "m = moved (?ps ! 3) (\<lambda>n. constRng 50 (n + drawsBefore ?ps 3))"
    and v: "vs = take 3 ps' @ m # drop (Suc 3) ?ps"
    and a: "attract m (findNearest m vs None) = Some (ps' ! 3)"
    and c: "case findNearest m vs None of
         None \<Rightarrow> \<forall>a\<in>set vs. \<not> p_isAttached a
       | Some (d, q) \<Rightarrow> q \<in> set vs \<and> p_isAttached q \<and> d = distance m q \<and>
           (\<forall>a\<in>set vs. p_isAttached a \<longrightarrow> d \<le> distance m a)"
    by blast
  from u have ps': "ps' = ?ps" by (simp only: tick_search option.inject prod.inject)
  have m': "m = particleAt 0.5" unfolding m h nth by (rule mv)
  have v': "vs = ?ps" unfolding v ps' m' by (rule vs)
  from a have "attract (particleAt 0.5) (Some (0.2, attachedAt 0.3)) = Some (particleAt 0.5)"
    unfolding v' m' ps' nth search_example .
  moreover from c have "\<forall>a\<in>set ?ps. p_isAttached a \<longrightarrow> 0.2 \<le> distance (particleAt 0.5) a"
    unfolding v' m' search_example by simp
  then have "0.2 \<le> distance (particleAt 0.5) seedParticle"
    "0.2 \<le> distance (particleAt 0.5) (attachedAt 0.9)"
    by (simp_all add: example_defs)
  ultimately show ?thesis
    using tick_search d mv search_example by (simp only: simp_thms)
qed

end
